theory Spec2Isabelle
  imports Complex_Main "HOL-Library.Log_Nat"
begin

section \<open>JavaScript values\<close>

text \<open>
  Request bodies, response bodies and log records are JSON. An object is kept as the list
  of its properties in the order the source writes them. A property that is absent from
  an object reads as \<open>undefined\<close> in JavaScript; it is \<open>None\<close> here.
\<close>

datatype json =
    JNull
  | JBool bool
  | JNum real
  | JStr string
  | JArr "json list"
  | JObj "(string \<times> json) list"

text \<open>
  JavaScript truthiness, as \<open>!x\<close> and \<open>x || y\<close> read it: \<open>undefined\<close>, \<open>null\<close>,
  \<open>false\<close>, \<open>0\<close> and the empty string are falsy, every object and array is truthy.
  (JSON has no NaN.)
\<close>

fun truthy :: "json option \<Rightarrow> bool" where
  "truthy None = False"
| "truthy (Some JNull) = False"
| "truthy (Some (JBool b)) = b"
| "truthy (Some (JNum n)) = (n \<noteq> 0)"
| "truthy (Some (JStr s)) = (s \<noteq> [])"
| "truthy (Some (JArr xs)) = True"
| "truthy (Some (JObj kvs)) = True"

text \<open>A property whose value is \<open>undefined\<close> is left out when the object is serialised.\<close>

fun jprop :: "string \<Rightarrow> json option \<Rightarrow> (string \<times> json) list" where
  "jprop k None = []"
| "jprop k (Some v) = [(k, v)]"

text \<open>\<open>x || d\<close>: \<open>x\<close> when it is truthy, \<open>d\<close> otherwise.\<close>

fun or_else :: "json option \<Rightarrow> json \<Rightarrow> json" where
  "or_else None d = d"
| "or_else (Some v) d = (if truthy (Some v) then v else d)"

definition str_prop :: "string \<Rightarrow> string option \<Rightarrow> (string \<times> json) list" where
  "str_prop k s = jprop k (map_option JStr s)"


section \<open>JavaScript numbers\<close>

text \<open>
  A JavaScript number is an IEEE 754 double: zero, or plus or minus \<open>m * 2^t * 2^-1074\<close>
  for whole numbers \<open>m\<close> below \<open>2^53\<close> and \<open>t\<close> from 0. \<open>min_double\<close> is the smallest
  positive one. \<open>fl x\<close> is the double nearest to the real number \<open>x\<close>, the one with the
  even \<open>m\<close> when two are equally near: it is what a decimal literal \<open>x\<close> of the source
  denotes and what a multiplication or a division returns when \<open>x\<close> is the exact product
  or quotient. With \<open>n\<close> the number \<open>x\<close> counted in units of \<open>min_double\<close>, the doubles
  around \<open>x\<close> are \<open>2^s\<close> units apart, for \<open>s\<close> the number of binary digits of the whole
  part of \<open>n\<close> in excess of 53. Overflow to \<open>Infinity\<close> is not modelled; every number the
  two programs compute is below \<open>2^14\<close>.

  Comparisons of doubles, \<open>Math.floor\<close>, and sums and differences of whole numbers below
  \<open>2^53\<close> are exact, and so is a multiplication by a power of two.
\<close>

definition round_half_even :: "real \<Rightarrow> int" where
  "round_half_even q =
     (let f = \<lfloor>q\<rfloor>; r = q - of_int f
      in if r < 1/2 then f else if 1/2 < r then f + 1 else if even f then f else f + 1)"

definition min_double :: real where
  "min_double = 1 / 2 ^ 1074"

definition fl :: "real \<Rightarrow> real" where
  "fl x =
     (let n = \<bar>x\<bar> / min_double;
          s = nat (bitlen \<lfloor>n\<rfloor> - 53)
      in sgn x * (of_int (round_half_even (n / 2 ^ s)) * 2 ^ s * min_double))"

section \<open>The payment service: \<open>payment-service/app.js\<close>\<close>

subsection \<open>The environment of a request\<close>

text \<open>
  Everything the handlers read from outside is a field of the \<open>world\<close>: the clock
  (\<open>Date.now()\<close>, in milliseconds), the results that successive calls of
  \<open>Math.random()\<close>, \<open>uuidv4()\<close> and \<open>faker.finance.account(10)\<close> are going to return,
  each with the number of results already handed out, the rendering of an instant by
  \<open>toISOString\<close>, the function \<open>decodeURIComponent\<close> of the platform, which fails on a
  malformed escape, and the records written to the logger so far.

  A result of \<open>Math.random()\<close> is a double from 0 and below 1, so at most
  \<open>1 - 2^-53\<close>, the largest double below 1. The handlers compare it with literals and
  multiply it by whole numbers; a product is rounded to a double before \<open>Math.floor\<close>
  is taken. The literals \<open>0.2\<close>, \<open>0.05\<close>, \<open>0.1\<close> and \<open>0.5\<close> denote the doubles at or
  next above these decimals, so that a double is below the literal exactly when it is
  below the decimal, and the model compares with the decimal; the literal \<open>0.15\<close> denotes
  a double below the decimal and is written \<open>fl 0.15\<close>.
\<close>

datatype level = LInfo | LError

record log_entry =
  lvl :: level
  logged_at :: int
  props :: "(string \<times> json) list"

record world =
  clock :: int
  randoms :: "nat \<Rightarrow> real"
  rpos :: nat
  uuids :: "nat \<Rightarrow> string"
  upos :: nat
  accounts :: "nat \<Rightarrow> string"
  apos :: nat
  toISOString :: "int \<Rightarrow> string"
  decodeURIComponent :: "string \<Rightarrow> string option"
  logged :: "log_entry list"

definition Math_random :: "world \<Rightarrow> real \<times> world" where
  "Math_random w = (randoms w (rpos w), w\<lparr>rpos := rpos w + 1\<rparr>)"

definition uuidv4 :: "world \<Rightarrow> string \<times> world" where
  "uuidv4 w = (uuids w (upos w), w\<lparr>upos := upos w + 1\<rparr>)"

definition faker_finance_account :: "world \<Rightarrow> string \<times> world" where
  "faker_finance_account w = (accounts w (apos w), w\<lparr>apos := apos w + 1\<rparr>)"

definition logger_info :: "(string \<times> json) list \<Rightarrow> world \<Rightarrow> world" where
  "logger_info obj w =
     w\<lparr>logged := logged w @ [\<lparr>lvl = LInfo, logged_at = clock w, props = obj\<rparr>]\<rparr>"

definition logger_error :: "(string \<times> json) list \<Rightarrow> world \<Rightarrow> world" where
  "logger_error obj w =
     w\<lparr>logged := logged w @ [\<lparr>lvl = LError, logged_at = clock w, props = obj\<rparr>]\<rparr>"

text \<open>
  \<open>setTimeout(f, ms)\<close> runs \<open>f\<close> once \<open>ms\<close> milliseconds have passed. One request is
  followed on its own, so the timer is the clock moving on before \<open>f\<close> runs.
\<close>

definition setTimeout :: "int \<Rightarrow> world \<Rightarrow> world" where
  "setTimeout ms w = w\<lparr>clock := clock w + ms\<rparr>"

subsection \<open>Requests and responses\<close>

text \<open>
  A request as the first middleware of \<open>app.js\<close> receives it: the method, in capitals as
  Node reports it, the path without the query string, the headers by their names in
  lower case, and the body, which is the object \<open>bodyParser.json()\<close> has parsed (a request
  whose body that parser refuses ends there and reaches nothing of what follows).
  \<open>traceId\<close> and \<open>transactionId\<close> are the two properties the first middleware adds to the
  request object.
\<close>

record request =
  req_method :: string
  req_path :: string
  req_headers :: "string \<rightharpoonup> string"
  req_query :: json
  req_ip :: string
  req_body :: "string \<rightharpoonup> json"
  traceId :: "string option"
  transactionId :: "string option"

text \<open>
  The response object: the status code (200 until \<open>res.status\<close> changes it), the status
  message (unset until it is assigned or Node writes the head), the headers that \<open>app.js\<close>
  sets with \<open>setHeader\<close> (those that Express adds when it sends, such as \<open>Content-Type\<close>,
  are left out), the \<open>start\<close> instant captured by the replacement of \<open>res.end\<close> once the
  second middleware has installed it, the \<open>responseTime\<close> property that replacement
  stores, and the body that was handed to \<open>res.end\<close> with the instant of sending (for a
  \<open>HEAD\<close> request Express runs the same code and sends the head alone).
\<close>

record res =
  statusCode :: nat
  statusMessage :: "string option"
  res_headers :: "string \<rightharpoonup> string"
  end_start :: "int option"
  responseTime :: "int option"
  sent :: "(json \<times> int) option"

definition new_res :: res where
  "new_res = \<lparr>statusCode = 200, statusMessage = None, res_headers = Map.empty,
              end_start = None, responseTime = None, sent = None\<rparr>"

definition setHeader :: "string \<Rightarrow> string \<Rightarrow> res \<Rightarrow> res" where
  "setHeader k v r = r\<lparr>res_headers := (res_headers r)(k \<mapsto> v)\<rparr>"

definition res_status :: "nat \<Rightarrow> res \<Rightarrow> res" where
  "res_status code r = r\<lparr>statusCode := code\<rparr>"

definition endpoint :: "request \<Rightarrow> string" where
  "endpoint req = req_method req @ '' '' @ req_path req"

text \<open>
  The five properties every record logged by a handler starts with, in the order the
  source writes them.
\<close>

definition log_head :: "request \<Rightarrow> string \<Rightarrow> (string \<times> json) list" where
  "log_head req msg =
     str_prop ''trace_id'' (traceId req) @
     str_prop ''transaction_id'' (transactionId req) @
     [(''message'', JStr msg),
      (''method'', JStr (req_method req)),
      (''path'', JStr (req_path req))]"

subsection \<open>The two middlewares\<close>

definition request_id_middleware :: "request \<Rightarrow> res \<Rightarrow> world \<Rightarrow> request \<times> res \<times> world" where
  "request_id_middleware req r w =
     (let (trace, w1) =
            (case req_headers req ''x-trace-id'' of
               None \<Rightarrow> uuidv4 w
             | Some h \<Rightarrow> if h \<noteq> [] then (h, w) else uuidv4 w);
          (transaction, w2) = uuidv4 w1;
          req1 = req\<lparr>traceId := Some trace, transactionId := Some transaction\<rparr>;
          r1 = setHeader ''x-transaction-id'' transaction (setHeader ''x-trace-id'' trace r);
          w3 = logger_info
                 ([(''trace_id'', JStr trace),
                   (''transaction_id'', JStr transaction),
                   (''message'', JStr ''Incoming request''),
                   (''method'', JStr (req_method req)),
                   (''path'', JStr (req_path req)),
                   (''query'', req_query req),
                   (''client_ip'', JStr (req_ip req))] @
                  str_prop ''user_agent'' (req_headers req ''user-agent'') @
                  [(''endpoint'', JStr (endpoint req)),
                   (''event_type'', JStr ''request'')]) w2
      in (req1, r1, w3))"

definition response_time_middleware :: "res \<Rightarrow> world \<Rightarrow> res" where
  "response_time_middleware r w = r\<lparr>end_start := Some (clock w)\<rparr>"

text \<open>
  \<open>res.end\<close>: with the replacement installed it stores the response time and logs the
  record \<open>Request completed\<close> before the original \<open>end\<close> sends the body.
\<close>

definition res_end :: "request \<Rightarrow> json \<Rightarrow> res \<Rightarrow> world \<Rightarrow> res \<times> world" where
  "res_end req payload r w =
     (case end_start r of
        None \<Rightarrow> (r\<lparr>sent := Some (payload, clock w)\<rparr>, w)
      | Some start \<Rightarrow>
          (let elapsed = clock w - start;
               r1 = r\<lparr>responseTime := Some elapsed\<rparr>;
               logData =
                 str_prop ''trace_id'' (traceId req) @
                 str_prop ''transaction_id'' (transactionId req) @
                 [(''message'', JStr ''Request completed''),
                  (''method'', JStr (req_method req)),
                  (''path'', JStr (req_path req)),
                  (''status_code'', JNum (real (statusCode r1))),
                  (''response_time'', JNum (real_of_int elapsed)),
                  (''endpoint'', JStr (endpoint req)),
                  (''event_type'', JStr ''response'')] @
                 (if statusCode r1 \<ge> 400
                  then [(''level'', JStr ''error''),
                        (''error'', JStr (case statusMessage r1 of
                                            None \<Rightarrow> ''Request failed''
                                          | Some m \<Rightarrow> if m \<noteq> [] then m else ''Request failed''))]
                  else [(''level'', JStr ''info'')]);
               w1 = logger_info logData w
           in (r1\<lparr>sent := Some (payload, clock w1)\<rparr>, w1)))"

definition res_json :: "request \<Rightarrow> (string \<times> json) list \<Rightarrow> res \<Rightarrow> world \<Rightarrow> res \<times> world" where
  "res_json req obj r w = res_end req (JObj obj) r w"

subsection \<open>\<open>POST /api/payments\<close>\<close>

text \<open>
  The handler draws from \<open>Math.random()\<close> four times before it answers a request with all
  three fields: for the delay, then \<open>simulateFailure\<close>, \<open>simulateTimeout\<close> and
  \<open>simulateValidationError\<close>, in that order. The function it passes to \<open>setTimeout\<close> tests
  the three flags in the order timeout, validation error, failure; it is
  \<open>payment_callback\<close>, with the variables of the handler it reads as its arguments.
\<close>

definition payment_callback ::
  "request \<Rightarrow> res \<Rightarrow> string \<Rightarrow> int \<Rightarrow> bool \<Rightarrow> bool \<Rightarrow> bool \<Rightarrow>
   json option \<Rightarrow> json option \<Rightarrow> json option \<Rightarrow> world \<Rightarrow> res \<times> world" where
  "payment_callback req r paymentId processingTime simulateTimeout simulateValidationError
     simulateFailure amount currency customerId w =
     (if simulateTimeout then
        (let w1 = logger_error
                    (log_head req ''Payment gateway timeout'' @
                     [(''payment_id'', JStr paymentId),
                      (''transaction_type'', JStr ''payment''),
                      (''status_code'', JNum 504),
                      (''error'', JStr ''Payment gateway timeout''),
                      (''processing_time'', JNum (real_of_int processingTime)),
                      (''event_type'', JStr ''payment_timeout'')]) w
         in res_json req
              [(''success'', JBool False),
               (''payment_id'', JStr paymentId),
               (''error'', JStr ''Payment gateway timeout'')]
              (res_status 504 r) w1)
      else if simulateValidationError then
        (let (e, w1) = Math_random w;
             errorReason = (if e < 0.5 then ''Invalid card details'' else ''Insufficient funds'');
             w2 = logger_error
                    (log_head req (''Payment validation error: '' @ errorReason) @
                     [(''payment_id'', JStr paymentId),
                      (''transaction_type'', JStr ''payment''),
                      (''status_code'', JNum 400),
                      (''error'', JStr errorReason),
                      (''processing_time'', JNum (real_of_int processingTime)),
                      (''event_type'', JStr ''payment_validation_error'')]) w1
         in res_json req
              [(''success'', JBool False),
               (''payment_id'', JStr paymentId),
               (''error'', JStr errorReason)]
              (res_status 400 r) w2)
      else if simulateFailure then
        (let w1 = logger_error
                    (log_head req ''Payment processing failed'' @
                     [(''payment_id'', JStr paymentId),
                      (''transaction_type'', JStr ''payment''),
                      (''status_code'', JNum 500),
                      (''error'', JStr ''Payment processor error''),
                      (''processing_time'', JNum (real_of_int processingTime)),
                      (''event_type'', JStr ''payment_failure'')]) w
         in res_json req
              [(''success'', JBool False),
               (''payment_id'', JStr paymentId),
               (''error'', JStr ''Payment processor error'')]
              (res_status 500 r) w1)
      else
        (let w1 = logger_info
                    (log_head req ''Payment processed successfully'' @
                     [(''payment_id'', JStr paymentId),
                      (''transaction_type'', JStr ''payment''),
                      (''status_code'', JNum 200)] @
                     jprop ''amount'' amount @
                     jprop ''currency'' currency @
                     jprop ''customer_id'' customerId @
                     [(''processing_time'', JNum (real_of_int processingTime)),
                      (''event_type'', JStr ''payment_success'')]) w
         in res_json req
              ([(''success'', JBool True),
                (''payment_id'', JStr paymentId)] @
               jprop ''amount'' amount @
               jprop ''currency'' currency @
               [(''status'', JStr ''completed''),
                (''timestamp'', JStr (toISOString w1 (clock w1)))])
              (res_status 200 r) w1))"

definition post_payments :: "request \<Rightarrow> res \<Rightarrow> world \<Rightarrow> res \<times> world" where
  "post_payments req r w =
     (let amount = req_body req ''amount'';
          currency = req_body req ''currency'';
          customerId = req_body req ''customerId''
      in
      if \<not> truthy amount \<or> \<not> truthy currency \<or> \<not> truthy customerId then
        (let w1 = logger_error
                    (log_head req ''Payment validation failed'' @
                     [(''status_code'', JNum 400),
                      (''error'', JStr ''Missing required fields''),
                      (''validation_errors'', JObj
                         [(''amount'', if \<not> truthy amount then JStr ''Amount is required'' else JNull),
                          (''currency'', if \<not> truthy currency then JStr ''Currency is required'' else JNull),
                          (''customerId'', if \<not> truthy customerId then JStr ''Customer ID is required'' else JNull)]),
                      (''event_type'', JStr ''payment_validation_error'')]) w
         in res_json req
              [(''success'', JBool False),
               (''error'', JStr ''Missing required fields for payment'')]
              (res_status 400 r) w1)
      else
        (let (account, w1) = faker_finance_account w;
             paymentId = ''pmt_'' @ account;
             (d, w2) = Math_random w1;
             processingTime = \<lfloor>fl (d * 1950)\<rfloor> + 50;
             (f, w3) = Math_random w2;
             simulateFailure = (f < 0.2);
             (t, w4) = Math_random w3;
             simulateTimeout = (t < 0.05);
             (v, w5) = Math_random w4;
             simulateValidationError = (v < 0.1);
             w6 = logger_info
                    (log_head req ''Processing payment'' @
                     [(''payment_id'', JStr paymentId),
                      (''transaction_type'', JStr ''payment'')] @
                     jprop ''amount'' amount @
                     jprop ''currency'' currency @
                     jprop ''customer_id'' customerId @
                     [(''estimated_processing_time'', JNum (real_of_int processingTime)),
                      (''event_type'', JStr ''payment_processing'')]) w5
         in payment_callback req r paymentId processingTime simulateTimeout
              simulateValidationError simulateFailure amount currency customerId
              (setTimeout processingTime w6)))"

subsection \<open>\<open>GET /api/payments/:paymentId\<close>\<close>

text \<open>
  Reading an array past its end gives \<open>undefined\<close>, which a template string prints as
  the word \<open>undefined\<close> and which is left out of a serialised object. The index of the
  status is \<open>Math.floor(Math.random() * statuses.length)\<close>; the length is 4, a power of
  two, so this product is exact.
\<close>

definition at_index :: "'a list \<Rightarrow> int \<Rightarrow> 'a option" where
  "at_index xs i = (if 0 \<le> i \<and> i < int (length xs) then Some (xs ! nat i) else None)"

definition statuses :: "string list" where
  "statuses = [''completed'', ''pending'', ''failed'', ''refunded'']"

definition status_callback ::
  "request \<Rightarrow> res \<Rightarrow> string \<Rightarrow> string option \<Rightarrow> int \<Rightarrow> world \<Rightarrow> res \<times> world" where
  "status_callback req r paymentId randomStatus processingTime w =
     (let w1 = logger_info
                 (log_head req (''Payment status: '' @
                                (case randomStatus of None \<Rightarrow> ''undefined'' | Some st \<Rightarrow> st)) @
                  [(''payment_id'', JStr paymentId),
                   (''transaction_type'', JStr ''payment_lookup'')] @
                  str_prop ''status'' randomStatus @
                  [(''processing_time'', JNum (real_of_int processingTime)),
                   (''event_type'', JStr ''status_result'')]) w
      in res_json req
           ([(''payment_id'', JStr paymentId)] @
            str_prop ''status'' randomStatus @
            [(''timestamp'', JStr (toISOString w1 (clock w1)))])
           r w1)"

definition get_payment :: "string \<Rightarrow> request \<Rightarrow> res \<Rightarrow> world \<Rightarrow> res \<times> world" where
  "get_payment paymentId req r w =
     (let w1 = logger_info
                 (log_head req ''Payment status lookup'' @
                  [(''payment_id'', JStr paymentId),
                   (''transaction_type'', JStr ''payment_lookup''),
                   (''event_type'', JStr ''status_check'')]) w;
          (s, w2) = Math_random w1;
          randomStatus = at_index statuses \<lfloor>s * real (length statuses)\<rfloor>;
          (d, w3) = Math_random w2;
          processingTime = \<lfloor>fl (d * 290)\<rfloor> + 10
      in status_callback req r paymentId randomStatus processingTime
           (setTimeout processingTime w3))"

subsection \<open>\<open>POST /api/refunds\<close>\<close>

definition refund_callback ::
  "request \<Rightarrow> res \<Rightarrow> string \<Rightarrow> int \<Rightarrow> bool \<Rightarrow> json option \<Rightarrow> json option \<Rightarrow>
   world \<Rightarrow> res \<times> world" where
  "refund_callback req r refundId processingTime simulateFailure paymentId amount w =
     (if simulateFailure then
        (let w1 = logger_error
                    (log_head req ''Refund processing failed'' @
                     [(''refund_id'', JStr refundId)] @
                     jprop ''payment_id'' paymentId @
                     [(''transaction_type'', JStr ''refund''),
                      (''status_code'', JNum 500),
                      (''error'', JStr ''Refund processor error''),
                      (''processing_time'', JNum (real_of_int processingTime)),
                      (''event_type'', JStr ''refund_failure'')]) w
         in res_json req
              ([(''success'', JBool False),
                (''refund_id'', JStr refundId)] @
               jprop ''payment_id'' paymentId @
               [(''error'', JStr ''Refund processor error'')])
              (res_status 500 r) w1)
      else
        (let w1 = logger_info
                    (log_head req ''Refund processed successfully'' @
                     [(''refund_id'', JStr refundId)] @
                     jprop ''payment_id'' paymentId @
                     [(''transaction_type'', JStr ''refund''),
                      (''status_code'', JNum 200)] @
                     jprop ''amount'' amount @
                     [(''processing_time'', JNum (real_of_int processingTime)),
                      (''event_type'', JStr ''refund_success'')]) w
         in res_json req
              ([(''success'', JBool True),
                (''refund_id'', JStr refundId)] @
               jprop ''payment_id'' paymentId @
               jprop ''amount'' amount @
               [(''status'', JStr ''completed''),
                (''timestamp'', JStr (toISOString w1 (clock w1)))])
              (res_status 200 r) w1))"

definition post_refunds :: "request \<Rightarrow> res \<Rightarrow> world \<Rightarrow> res \<times> world" where
  "post_refunds req r w =
     (let paymentId = req_body req ''paymentId'';
          amount = req_body req ''amount'';
          reason = req_body req ''reason''
      in
      if \<not> truthy paymentId \<or> \<not> truthy amount then
        (let w1 = logger_error
                    (log_head req ''Refund validation failed'' @
                     [(''status_code'', JNum 400),
                      (''error'', JStr ''Missing required fields''),
                      (''validation_errors'', JObj
                         [(''paymentId'', if \<not> truthy paymentId then JStr ''Payment ID is required'' else JNull),
                          (''amount'', if \<not> truthy amount then JStr ''Amount is required'' else JNull)]),
                      (''event_type'', JStr ''refund_validation_error'')]) w
         in res_json req
              [(''success'', JBool False),
               (''error'', JStr ''Missing required fields for refund'')]
              (res_status 400 r) w1)
      else
        (let (account, w1) = faker_finance_account w;
             refundId = ''ref_'' @ account;
             (d, w2) = Math_random w1;
             processingTime = \<lfloor>fl (d * 1500)\<rfloor> + 100;
             w3 = logger_info
                    (log_head req ''Processing refund'' @
                     [(''refund_id'', JStr refundId)] @
                     jprop ''payment_id'' paymentId @
                     [(''transaction_type'', JStr ''refund'')] @
                     jprop ''amount'' amount @
                     [(''reason'', or_else reason (JStr ''Not specified'')),
                      (''event_type'', JStr ''refund_processing'')]) w2;
             (f, w4) = Math_random w3;
             simulateFailure = (f < fl 0.15)
         in refund_callback req r refundId processingTime simulateFailure paymentId amount
              (setTimeout processingTime w4)))"

subsection \<open>\<open>GET /health\<close> and \<open>GET /\<close>\<close>

text \<open>\<open>SERVICE_NAME\<close> is read from the process environment when the module is loaded.\<close>

definition get_health :: "string \<Rightarrow> request \<Rightarrow> res \<Rightarrow> world \<Rightarrow> res \<times> world" where
  "get_health SERVICE_NAME req r w =
     (let w1 = logger_info
                 (log_head req ''Health check'' @
                  [(''transaction_type'', JStr ''health_check''),
                   (''event_type'', JStr ''system'')]) w
      in res_json req
           [(''status'', JStr ''ok''), (''service'', JStr SERVICE_NAME)]
           (res_status 200 r) w1)"

definition endpoint_info :: "string \<Rightarrow> string \<Rightarrow> string \<Rightarrow> json" where
  "endpoint_info m p d =
     JObj [(''method'', JStr m), (''path'', JStr p), (''description'', JStr d)]"

definition get_root :: "string \<Rightarrow> request \<Rightarrow> res \<Rightarrow> world \<Rightarrow> res \<times> world" where
  "get_root SERVICE_NAME req r w =
     (let w1 = logger_info
                 (log_head req ''Service info request'' @
                  [(''transaction_type'', JStr ''info''),
                   (''event_type'', JStr ''system'')]) w
      in res_json req
           [(''service'', JStr SERVICE_NAME),
            (''version'', JStr ''1.0.0''),
            (''endpoints'', JArr
               [endpoint_info ''POST'' ''/api/payments'' ''Process a payment'',
                endpoint_info ''GET'' ''/api/payments/:paymentId'' ''Get payment status'',
                endpoint_info ''POST'' ''/api/refunds'' ''Process a refund'',
                endpoint_info ''GET'' ''/health'' ''Health check''])]
           (res_status 200 r) w1)"

subsection \<open>Routing\<close>

text \<open>
  \<open>app.js\<close> registers five routes with Express (version 4, which the service installs
  with its default settings): paths are compared without regard to the case of letters,
  and one slash at the end of the path is optional. The path of a route without parameter
  becomes the pattern \<open>^\/api\/payments\/?$\<close>, and that of the root \<open>^\/?$\<close>. The path
  \<open>/api/payments/:paymentId\<close> becomes \<open>^\/api\/payments\/(?:([^\/]+?))\/?$\<close>: the parameter
  is one segment, not empty and free of slashes; Express passes it through
  \<open>decodeURIComponent\<close> before the handler reads it as \<open>req.params.paymentId\<close>.
\<close>

datatype route = PostPayments | GetPayment string | PostRefunds | GetHealth | GetRoot

definition lower :: "char \<Rightarrow> char" where
  "lower c =
     (let n = (of_char c :: nat) in if 65 \<le> n \<and> n \<le> 90 then char_of (n + 32) else c)"

definition is_path :: "string \<Rightarrow> string \<Rightarrow> bool" where
  "is_path pattern path =
     (map lower path = map lower pattern \<or> map lower path = map lower pattern @ ''/'')"

definition path_parameter :: "string \<Rightarrow> string \<Rightarrow> string option" where
  "path_parameter prefix path =
     (if map lower (take (length prefix) path) = map lower prefix then
        (let rest = drop (length prefix) path;
             segment = (if rest \<noteq> [] \<and> last rest = CHR ''/'' then butlast rest else rest)
         in if segment \<noteq> [] \<and> CHR ''/'' \<notin> set segment then Some segment else None)
      else None)"

text \<open>
  What the router does with a request: it calls the handler of a route; or, for the method
  \<open>OPTIONS\<close> on the path of a route, it answers itself with the methods of that route; or
  it finds no route; or the parameter cannot be decoded. A route registered with
  \<open>app.get\<close> also serves \<open>HEAD\<close>. The five patterns match disjoint sets of paths, so the
  order in which they are tried does not show.
\<close>

datatype routing = Handler route | Allow string | NoRoute | BadParameter

definition by_method :: "string \<Rightarrow> route \<Rightarrow> string \<Rightarrow> routing" where
  "by_method registered rt m =
     (if m = registered \<or> (registered = ''GET'' \<and> m = ''HEAD'') then Handler rt
      else if m = ''OPTIONS'' then Allow (if registered = ''GET'' then ''GET,HEAD'' else registered)
      else NoRoute)"

definition route_of :: "(string \<Rightarrow> string option) \<Rightarrow> string \<Rightarrow> string \<Rightarrow> routing" where
  "route_of decode m path =
     (case path_parameter ''/api/payments/'' path of
        Some segment \<Rightarrow>
          (case decode segment of
             None \<Rightarrow> BadParameter
           | Some paymentId \<Rightarrow> by_method ''GET'' (GetPayment paymentId) m)
      | None \<Rightarrow>
          if is_path ''/api/payments'' path then by_method ''POST'' PostPayments m
          else if is_path ''/api/refunds'' path then by_method ''POST'' PostRefunds m
          else if is_path ''/health'' path then by_method ''GET'' GetHealth m
          else if path = ''/'' \<or> path = [] then by_method ''GET'' GetRoot m
          else NoRoute)"

fun dispatch :: "string \<Rightarrow> route \<Rightarrow> request \<Rightarrow> res \<Rightarrow> world \<Rightarrow> res \<times> world" where
  "dispatch sn PostPayments req r w = post_payments req r w"
| "dispatch sn (GetPayment paymentId) req r w = get_payment paymentId req r w"
| "dispatch sn PostRefunds req r w = post_refunds req r w"
| "dispatch sn GetHealth req r w = get_health sn req r w"
| "dispatch sn GetRoot req r w = get_root sn req r w"

text \<open>
  A request that no handler answers is answered by Express: with the status and the
  status message of the error and a page that carries its text (404 \<open>Not Found\<close> when
  there is no route, 400 \<open>Bad Request\<close> when the parameter cannot be decoded), or, for
  \<open>OPTIONS\<close>, with status 200 and the list of methods as the body. In each case the body
  goes through \<open>res.end\<close>. The page is represented by its text, without the markup.
\<close>

definition finalhandler :: "nat \<Rightarrow> string \<Rightarrow> string \<Rightarrow> request \<Rightarrow> res \<Rightarrow> world \<Rightarrow> res \<times> world" where
  "finalhandler code message page req r w =
     res_end req (JStr page) (r\<lparr>statusCode := code, statusMessage := Some message\<rparr>) w"

text \<open>
  One request through the application behind \<open>bodyParser.json()\<close>, in the order of the
  \<open>app.use\<close> calls: the request id middleware, the response time middleware, the router.
\<close>

definition handle :: "string \<Rightarrow> request \<Rightarrow> world \<Rightarrow> res \<times> world" where
  "handle sn req w =
     (let (req1, r1, w1) = request_id_middleware req new_res w;
          r2 = response_time_middleware r1 w1
      in case route_of (decodeURIComponent w1) (req_method req1) (req_path req1) of
           Handler rt \<Rightarrow> dispatch sn rt req1 r2 w1
         | Allow methods \<Rightarrow> res_end req1 (JStr methods) r2 w1
         | NoRoute \<Rightarrow>
             finalhandler 404 ''Not Found''
               (''Cannot '' @ req_method req1 @ '' '' @ req_path req1) req1 r2 w1
         | BadParameter \<Rightarrow> finalhandler 400 ''Bad Request'' ''Bad Request'' req1 r2 w1)"

section \<open>Loading \<open>app.js\<close>\<close>

text \<open>
  Node compiles a module before it runs any of it, and the compilation fails with a
  \<open>SyntaxError\<close> when two \<open>const\<close> declarations of the same scope bind one name. A module
  that compiles runs its statements in order; reading an identifier that nothing binds
  throws a \<open>ReferenceError\<close> and ends the run.

  The top level of \<open>app.js\<close> is listed statement by statement: for a \<open>const\<close>, the name it
  binds and the identifiers its initialiser reads when it runs; for a statement, the
  identifiers it reads and what it installs. Identifiers inside a function body are read
  when the function is called, not when the statement runs, and are not listed.
\<close>

datatype js_error = SyntaxError string | ReferenceError string

datatype installed =
    UseBodyParser
  | UseRequestId
  | UseResponseTime
  | OnRoute string string
  | Listen
  | OnSIGTERM

datatype top_level =
    Const string "string list"
  | Run "string list" installed

definition app_js :: "top_level list" where
  "app_js =
     [Const ''express'' [''require''],
      Const ''uuidv4'' [''require''],
      Const ''pino'' [''require''],
      Const ''bodyParser'' [''require''],
      Const ''faker'' [''require''],
      Const ''path'' [''require''],
      Const ''fs'' [''require''],
      Const ''PORT'' [''process''],
      Const ''SERVICE_NAME'' [''process''],
      Const ''logger'' [''pino'', ''process'', ''SERVICE_NAME''],
      Const ''logger'' [''connectLogger''],
      Const ''app'' [''express''],
      Run [''app'', ''bodyParser''] UseBodyParser,
      Run [''app''] UseRequestId,
      Run [''app''] UseResponseTime,
      Run [''app''] (OnRoute ''POST'' ''/api/payments''),
      Run [''app''] (OnRoute ''GET'' ''/api/payments/:paymentId''),
      Run [''app''] (OnRoute ''POST'' ''/api/refunds''),
      Run [''app''] (OnRoute ''GET'' ''/health''),
      Run [''app''] (OnRoute ''GET'' ''/''),
      Run [''app'', ''PORT''] Listen,
      Run [''process''] OnSIGTERM]"

fun lexically_declared :: "top_level list \<Rightarrow> string list" where
  "lexically_declared [] = []"
| "lexically_declared (Const x reads # rest) = x # lexically_declared rest"
| "lexically_declared (Run reads i # rest) = lexically_declared rest"

fun first_duplicate :: "string list \<Rightarrow> string option" where
  "first_duplicate [] = None"
| "first_duplicate (x # xs) = (if x \<in> set xs then Some x else first_duplicate xs)"

text \<open>The identifiers Node binds for every CommonJS module that \<open>app.js\<close> reads.\<close>

definition node_globals :: "string list" where
  "node_globals = [''require'', ''process'']"

fun first_unbound :: "string list \<Rightarrow> string list \<Rightarrow> string option" where
  "first_unbound bound [] = None"
| "first_unbound bound (x # xs) = (if x \<in> set bound then first_unbound bound xs else Some x)"

fun evaluate :: "string list \<Rightarrow> installed list \<Rightarrow> top_level list \<Rightarrow> js_error + installed list" where
  "evaluate bound app [] = Inr app"
| "evaluate bound app (Const x reads # rest) =
     (case first_unbound bound reads of
        Some y \<Rightarrow> Inl (ReferenceError y)
      | None \<Rightarrow> evaluate (x # bound) app rest)"
| "evaluate bound app (Run reads i # rest) =
     (case first_unbound bound reads of
        Some y \<Rightarrow> Inl (ReferenceError y)
      | None \<Rightarrow> evaluate bound (app @ [i]) rest)"

definition load_module :: "top_level list \<Rightarrow> js_error + installed list" where
  "load_module prog =
     (case first_duplicate (lexically_declared prog) of
        Some x \<Rightarrow> Inl (SyntaxError x)
      | None \<Rightarrow> evaluate node_globals [] prog)"

text \<open>
  A request is answered only by a module that has loaded and is listening; the answer is
  then the one of \<open>handle\<close>.
\<close>

definition serve :: "js_error + installed list \<Rightarrow> string \<Rightarrow> request \<Rightarrow> world \<Rightarrow> (res \<times> world) option" where
  "serve loaded sn req w =
     (case loaded of
        Inl e \<Rightarrow> None
      | Inr app \<Rightarrow> if Listen \<in> set app then Some (handle sn req w) else None)"

section \<open>The load generator: \<open>load-generator.js\<close>\<close>

subsection \<open>Configuration\<close>

text \<open>
  \<open>parseInt\<close> without a radix: leading white space is skipped, a sign is read, the prefix
  \<open>0x\<close> selects base 16, and the longest run of digits is the value. No digit at all gives
  \<open>NaN\<close>, which is \<open>None\<close> here.
\<close>

definition is_space :: "char \<Rightarrow> bool" where
  "is_space c = ((of_char c :: nat) \<in> {9, 10, 11, 12, 13, 32})"

definition digit_of :: "nat \<Rightarrow> char \<Rightarrow> nat option" where
  "digit_of radix c =
     (let n = (of_char c :: nat);
          v = (if 48 \<le> n \<and> n \<le> 57 then Some (n - 48)
               else if 97 \<le> n \<and> n \<le> 122 then Some (n - 87)
               else if 65 \<le> n \<and> n \<le> 90 then Some (n - 55)
               else None)
      in case v of
           None \<Rightarrow> None
         | Some d \<Rightarrow> if d < radix then Some d else None)"

fun parse_digits :: "nat \<Rightarrow> string \<Rightarrow> nat option \<Rightarrow> nat option" where
  "parse_digits radix [] acc = acc"
| "parse_digits radix (c # cs) acc =
     (case digit_of radix c of
        None \<Rightarrow> acc
      | Some d \<Rightarrow>
          parse_digits radix cs
            (Some (radix * (case acc of None \<Rightarrow> 0 | Some a \<Rightarrow> a) + d)))"

definition parseInt :: "string \<Rightarrow> int option" where
  "parseInt s =
     (let s1 = dropWhile is_space s;
          (neg, s2) =
            (case s1 of
               [] \<Rightarrow> (False, [])
             | c # cs \<Rightarrow>
                 if c = CHR ''-'' then (True, cs)
                 else if c = CHR ''+'' then (False, cs)
                 else (False, s1));
          (radix, s3) =
            (case s2 of
               a # b # cs \<Rightarrow>
                 if a = CHR ''0'' \<and> (b = CHR ''x'' \<or> b = CHR ''X'') then (16, cs) else (10, s2)
             | _ \<Rightarrow> (10, s2))
      in map_option (\<lambda>n. if neg then - int n else int n) (parse_digits radix s3 None))"

text \<open>\<open>process.env.K || d\<close>: an unset or empty variable gives the default.\<close>

definition env_or :: "(string \<rightharpoonup> string) \<Rightarrow> string \<Rightarrow> string \<Rightarrow> string" where
  "env_or env k d = (case env k of None \<Rightarrow> d | Some s \<Rightarrow> if s \<noteq> [] then s else d)"

record config =
  paymentServiceUrl :: string
  requestsPerMinute :: "int option"
  runForever :: bool
  durationMinutes :: "int option"
  randomSeed :: string

definition CONFIG :: "(string \<rightharpoonup> string) \<Rightarrow> config" where
  "CONFIG env =
     \<lparr>paymentServiceUrl = env_or env ''PAYMENT_SERVICE_URL'' ''http://payment-service:3000'',
      requestsPerMinute = parseInt (env_or env ''REQUESTS_PER_MINUTE'' ''30''),
      runForever = (env ''RUN_FOREVER'' = Some ''true'' \<or> True),
      durationMinutes = parseInt (env_or env ''DURATION_MINUTES'' ''30''),
      randomSeed = env_or env ''RANDOM_SEED'' ''12345''\<rparr>"

subsection \<open>The generator's environment\<close>

text \<open>
  The generator reads \<open>Math.random()\<close>, \<open>uuidv4()\<close>, faker's generators and the answers of the
  service. As for the service, each is a sequence of results to come and a count of those
  handed out. \<open>sent_requests\<close> lists the calls made with axios, oldest first. What the
  generator prints on the console is left out.
\<close>

datatype target =
    Payments
  | PaymentStatus "json option"
  | Refunds
  | Health
  | Root

record http_request =
  verb :: string
  base_url :: string
  target :: target
  payload :: "json option"
  x_trace_id :: string

text \<open>An answer of the service with its status and parsed body, or no answer at all.\<close>

datatype reply = Reply nat "string \<rightharpoonup> json" | NoReply

record gworld =
  g_randoms :: "nat \<Rightarrow> real"
  g_rpos :: nat
  g_uuids :: "nat \<Rightarrow> string"
  g_upos :: nat
  fakes :: "nat \<Rightarrow> string"
  fpos :: nat
  replies :: "nat \<Rightarrow> reply"
  npos :: nat
  sent_requests :: "http_request list"

definition g_random :: "gworld \<Rightarrow> real \<times> gworld" where
  "g_random g = (g_randoms g (g_rpos g), g\<lparr>g_rpos := g_rpos g + 1\<rparr>)"

definition g_uuidv4 :: "gworld \<Rightarrow> string \<times> gworld" where
  "g_uuidv4 g = (g_uuids g (g_upos g), g\<lparr>g_upos := g_upos g + 1\<rparr>)"

definition faker :: "gworld \<Rightarrow> string \<times> gworld" where
  "faker g = (fakes g (fpos g), g\<lparr>fpos := fpos g + 1\<rparr>)"

text \<open>
  An axios call: the request is recorded and the next answer is read. axios resolves with
  the body when the status is from 200 to 299 and throws otherwise; the result is
  \<open>Some data\<close> in the first case and \<open>None\<close> in the second.
\<close>

definition axios :: "http_request \<Rightarrow> gworld \<Rightarrow> (string \<rightharpoonup> json) option \<times> gworld" where
  "axios rq g =
     (let g1 = g\<lparr>sent_requests := sent_requests g @ [rq], npos := npos g + 1\<rparr>
      in case replies g (npos g) of
           NoReply \<Rightarrow> (None, g1)
         | Reply code data \<Rightarrow> if 200 \<le> code \<and> code < 300 then (Some data, g1) else (None, g1))"

definition getRandomInt :: "int \<Rightarrow> int \<Rightarrow> gworld \<Rightarrow> int \<times> gworld" where
  "getRandomInt lo hi g =
     (let (x, g1) = g_random g in (\<lfloor>x * real_of_int (hi - lo + 1)\<rfloor> + lo, g1))"

subsection \<open>Request generators and API calls\<close>

fun show_nat :: "nat \<Rightarrow> string" where
  "show_nat n =
     (if n < 10 then [char_of (48 + n)]
      else show_nat (n div 10) @ [char_of (48 + n mod 10)])"

definition show_int :: "int \<Rightarrow> string" where
  "show_int i = (if i < 0 then ''-'' @ show_nat (nat (- i)) else show_nat (nat i))"

definition currencies :: "string list" where
  "currencies = [''USD'', ''EUR'', ''GBP'', ''JPY'', ''CAD'', ''AUD'']"

definition generatePaymentRequest :: "gworld \<Rightarrow> json \<times> gworld" where
  "generatePaymentRequest g =
     (let (a, g1) = getRandomInt 100 10000 g;
          amount = real_of_int a / 100;
          (c, g2) = getRandomInt 0 (int (length currencies) - 1) g1;
          currency = at_index currencies c;
          (uuid, g3) = faker g2;
          (number, g4) = faker g3;
          (month, g5) = getRandomInt 1 12 g4;
          (year, g6) = getRandomInt 23 30 g5;
          (cvv, g7) = faker g6
      in (JObj ([(''amount'', JNum amount)] @
                str_prop ''currency'' currency @
                [(''customerId'', JStr (''cust_'' @ take 8 uuid)),
                 (''cardDetails'', JObj
                    [(''number'', JStr number),
                     (''expiry'', JStr (show_int month @ ''/'' @ show_int year)),
                     (''cvv'', JStr cvv)])]), g7))"

definition generateRefundRequest :: "json option \<Rightarrow> gworld \<Rightarrow> json \<times> gworld" where
  "generateRefundRequest paymentId g =
     (let (a, g1) = getRandomInt 50 10000 g;
          (sentence, g2) = faker g1
      in (JObj (jprop ''paymentId'' paymentId @
                [(''amount'', JNum (real_of_int a / 100)),
                 (''reason'', JStr sentence)]), g2))"

text \<open>
  \<open>makePaymentRequest\<close> returns \<open>response.data.payment_id\<close> when axios resolves and \<open>null\<close>
  when it throws.
\<close>

definition makePaymentRequest :: "config \<Rightarrow> gworld \<Rightarrow> json option \<times> gworld" where
  "makePaymentRequest cfg g =
     (let (traceId, g1) = g_uuidv4 g;
          (body, g2) = generatePaymentRequest g1;
          (response, g3) =
            axios \<lparr>verb = ''POST'', base_url = paymentServiceUrl cfg, target = Payments,
                   payload = Some body, x_trace_id = traceId\<rparr> g2
      in case response of
           Some data \<Rightarrow> (data ''payment_id'', g3)
         | None \<Rightarrow> (Some JNull, g3))"

definition getPaymentStatus :: "config \<Rightarrow> json option \<Rightarrow> gworld \<Rightarrow> gworld" where
  "getPaymentStatus cfg paymentId g =
     (let (traceId, g1) = g_uuidv4 g
      in snd (axios \<lparr>verb = ''GET'', base_url = paymentServiceUrl cfg,
                     target = PaymentStatus paymentId, payload = None,
                     x_trace_id = traceId\<rparr> g1))"

definition makeRefundRequest :: "config \<Rightarrow> json option \<Rightarrow> gworld \<Rightarrow> gworld" where
  "makeRefundRequest cfg paymentId g =
     (let (traceId, g1) = g_uuidv4 g;
          (body, g2) = generateRefundRequest paymentId g1
      in snd (axios \<lparr>verb = ''POST'', base_url = paymentServiceUrl cfg, target = Refunds,
                     payload = Some body, x_trace_id = traceId\<rparr> g2))"

definition getHealthCheck :: "config \<Rightarrow> gworld \<Rightarrow> gworld" where
  "getHealthCheck cfg g =
     (let (traceId, g1) = g_uuidv4 g
      in snd (axios \<lparr>verb = ''GET'', base_url = paymentServiceUrl cfg, target = Health,
                     payload = None, x_trace_id = traceId\<rparr> g1))"

definition getServiceInfo :: "config \<Rightarrow> gworld \<Rightarrow> gworld" where
  "getServiceInfo cfg g =
     (let (traceId, g1) = g_uuidv4 g
      in snd (axios \<lparr>verb = ''GET'', base_url = paymentServiceUrl cfg, target = Root,
                     payload = None, x_trace_id = traceId\<rparr> g1))"

subsection \<open>\<open>runLoadGenerator\<close>\<close>

text \<open>
  The variables of \<open>runLoadGenerator\<close>: the array \<open>successfulPaymentIds\<close>, and for each of
  the two intervals whether it is still scheduled. \<open>clearInterval(loadInterval)\<close> is the
  only call that unschedules one.
\<close>

record gstate =
  successfulPaymentIds :: "json list"
  loadInterval_active :: bool
  healthInterval_active :: bool

text \<open>
  \<open>push\<close> followed by the test of the length and \<open>shift\<close>; \<open>splice(i, 1)\<close>, whose start
  counts from the end when negative and is capped at the length.
\<close>

definition push_recent :: "json \<Rightarrow> json list \<Rightarrow> json list" where
  "push_recent paymentId ids =
     (let ids1 = ids @ [paymentId]
      in if length ids1 > 100 then tl ids1 else ids1)"

definition splice1 :: "int \<Rightarrow> 'a list \<Rightarrow> 'a list" where
  "splice1 i xs =
     (let n = int (length xs);
          start = (if i < 0 then max 0 (n + i) else min i n)
      in take (nat start) xs @ drop (nat start + 1) xs)"

text \<open>
  One run of the callback of the load interval, at the instant \<open>now\<close>. The callback awaits
  each call it makes; the model follows one callback from its start to its end, so it
  describes the generator when a callback has ended before the next one starts.
\<close>

definition tick :: "config \<Rightarrow> int option \<Rightarrow> int \<Rightarrow> gstate \<times> gworld \<Rightarrow> gstate \<times> gworld" where
  "tick cfg endTime now sg =
     (let (st, g) = sg;
          ids = successfulPaymentIds st
      in
      if \<not> runForever cfg \<and> (case endTime of None \<Rightarrow> False | Some e \<Rightarrow> now > e) then
        (st\<lparr>loadInterval_active := False\<rparr>, g)
      else
        (let (requestType, g1) = g_random g in
         if requestType < 0.6 then
           (let (paymentId, g2) = makePaymentRequest cfg g1
            in case paymentId of
                 None \<Rightarrow> (st, g2)
               | Some v \<Rightarrow>
                   if truthy (Some v)
                   then (st\<lparr>successfulPaymentIds := push_recent v ids\<rparr>, g2)
                   else (st, g2))
         else if requestType < 0.8 then
           (if length ids > 0 then
              (let (randomIndex, g2) = getRandomInt 0 (int (length ids) - 1) g1
               in (st, getPaymentStatus cfg (at_index ids randomIndex) g2))
            else (st, snd (makePaymentRequest cfg g1)))
         else if requestType < 0.95 then
           (if length ids > 0 then
              (let (randomIndex, g2) = getRandomInt 0 (int (length ids) - 1) g1;
                   g3 = makeRefundRequest cfg (at_index ids randomIndex) g2;
                   (coin, g4) = g_random g3
               in if coin > 0.5
                  then (st\<lparr>successfulPaymentIds := splice1 randomIndex ids\<rparr>, g4)
                  else (st, g4))
            else (st, snd (makePaymentRequest cfg g1)))
         else (st, getHealthCheck cfg g1)))"

text \<open>
  The start of \<open>runLoadGenerator\<close> at the instant \<open>now\<close>: the end time, the two calls made
  before the loop, and the two intervals scheduled. \<open>durationMinutes\<close> may be \<open>NaN\<close>, and
  then so is the end time.
\<close>

definition runLoadGenerator :: "config \<Rightarrow> int \<Rightarrow> gworld \<Rightarrow> (gstate \<times> gworld) \<times> int option" where
  "runLoadGenerator cfg now g =
     (let startTime = now;
          endTime = map_option (\<lambda>m. startTime + m * 60 * 1000) (durationMinutes cfg);
          g1 = getServiceInfo cfg g;
          g2 = getHealthCheck cfg g1
      in ((\<lparr>successfulPaymentIds = [], loadInterval_active = True,
             healthInterval_active = True\<rparr>, g2), endTime))"

text \<open>
  What happens afterwards is a sequence of timer events, each with its instant. An
  interval that has been cleared fires no more.
\<close>

datatype timer_event = LoadTick int | HealthTick int

fun fire :: "config \<Rightarrow> int option \<Rightarrow> gstate \<times> gworld \<Rightarrow> timer_event \<Rightarrow> gstate \<times> gworld" where
  "fire cfg endTime sg (LoadTick now) =
     (if loadInterval_active (fst sg) then tick cfg endTime now sg else sg)"
| "fire cfg endTime sg (HealthTick now) =
     (if healthInterval_active (fst sg) then (fst sg, getHealthCheck cfg (snd sg)) else sg)"

definition generator_run ::
  "(string \<rightharpoonup> string) \<Rightarrow> int \<Rightarrow> timer_event list \<Rightarrow> gworld \<Rightarrow> gstate \<times> gworld" where
  "generator_run env now events g =
     (let cfg = CONFIG env;
          (sg, endTime) = runLoadGenerator cfg now g
      in foldl (fire cfg endTime) sg events)"

section \<open>Measuring the outcomes\<close>

text \<open>
  The properties below that speak of observed values are stated on the log: the records a
  call has added to it, and a property of a record by its key.
\<close>

definition new_events :: "world \<Rightarrow> world \<Rightarrow> log_entry list" where
  "new_events w w' = drop (length (logged w)) (logged w')"

fun lookup :: "string \<Rightarrow> (string \<times> json) list \<Rightarrow> json option" where
  "lookup k [] = None"
| "lookup k ((k', v) # kvs) = (if k' = k then Some v else lookup k kvs)"

definition prop_of :: "string \<Rightarrow> log_entry \<Rightarrow> json option" where
  "prop_of k e = lookup k (props e)"

definition body_prop :: "string \<Rightarrow> res \<Rightarrow> json option" where
  "body_prop k r =
     (case sent r of
        Some (JObj obj, instant) \<Rightarrow> lookup k obj
      | _ \<Rightarrow> None)"

definition sent_at :: "res \<Rightarrow> int option" where
  "sent_at r = map_option snd (sent r)"

text \<open>
  Frequencies are counted over a grid: \<open>grid n\<close> holds the \<open>n\<close> equally spaced numbers
  \<open>0, 1/n, ..., (n-1)/n\<close> of the interval from 0 to 1 that \<open>Math.random()\<close> draws from.
  \<open>with_draws w f t v\<close> is the world \<open>w\<close> in which the three draws that follow the next one
  are \<open>f\<close>, \<open>t\<close> and \<open>v\<close>: for \<open>post_payments\<close> these are the draws of \<open>simulateFailure\<close>,
  \<open>simulateTimeout\<close> and \<open>simulateValidationError\<close>. \<open>outcome_count\<close> counts the triples of
  grid points for which the handler answers with a given status.
\<close>

definition grid :: "nat \<Rightarrow> real set" where
  "grid n = (\<lambda>k. real k / real n) ` {0..<n}"

definition with_draws :: "world \<Rightarrow> real \<Rightarrow> real \<Rightarrow> real \<Rightarrow> world" where
  "with_draws w f t v =
     w\<lparr>randoms := (randoms w)(rpos w + 1 := f, rpos w + 2 := t, rpos w + 3 := v)\<rparr>"

text \<open>\<open>with_draw w k x\<close> is the world \<open>w\<close> in which the draw \<open>k\<close> places after the next one is \<open>x\<close>.\<close>

definition with_draw :: "world \<Rightarrow> nat \<Rightarrow> real \<Rightarrow> world" where
  "with_draw w k x = w\<lparr>randoms := (randoms w)(rpos w + k := x)\<rparr>"

definition outcome_count :: "nat \<Rightarrow> request \<Rightarrow> res \<Rightarrow> world \<Rightarrow> nat \<Rightarrow> nat" where
  "outcome_count n req r w code =
     card {(f, t, v). f \<in> grid n \<and> t \<in> grid n \<and> v \<in> grid n \<and>
             statusCode (fst (post_payments req r (with_draws w f t v))) = code}"

text \<open>
  The records that \<open>res.end\<close> adds to the log: none before the second middleware has
  replaced it, the record \<open>Request completed\<close> afterwards. They do not depend on the body
  that is sent.
\<close>

definition completed_event :: "request \<Rightarrow> res \<Rightarrow> world \<Rightarrow> log_entry list" where
  "completed_event req r w = new_events w (snd (res_end req JNull r w))"

text \<open>
  A logged record carries the ids of a request when its properties \<open>trace_id\<close> and
  \<open>transaction_id\<close> are the two ids attached to the request. \<open>grows req w w'\<close>: the log of
  \<open>w'\<close> is the log of \<open>w\<close> followed by records that all carry the ids of \<open>req\<close>, and no
  token was taken from \<open>uuidv4()\<close> in between.
\<close>

definition carries_ids :: "request \<Rightarrow> log_entry \<Rightarrow> bool" where
  "carries_ids req e =
     (prop_of ''trace_id'' e = map_option JStr (traceId req) \<and>
      prop_of ''transaction_id'' e = map_option JStr (transactionId req))"

definition grows :: "request \<Rightarrow> world \<Rightarrow> world \<Rightarrow> bool" where
  "grows req w w' =
     (\<exists>es. logged w' = logged w @ es \<and> list_all (carries_ids req) es \<and> upos w' = upos w)"

text \<open>
  For the generator: the requests a step has sent, and a property of the JSON body of a
  request.
\<close>

definition new_requests :: "gworld \<Rightarrow> gworld \<Rightarrow> http_request list" where
  "new_requests g g' = drop (length (sent_requests g)) (sent_requests g')"


section \<open>Concrete inputs\<close>

text \<open>
  A world whose \<open>Math.random()\<close> returns the numbers of a list and then zero and whose
  \<open>decodeURIComponent\<close> returns a string without escapes as it is, and requests for the
  routes with a given body and headers.
\<close>

definition world_with :: "real list \<Rightarrow> world" where
  "world_with ds =
     \<lparr>clock = 1000,
      randoms = (\<lambda>i. if i < length ds then ds ! i else 0),
      rpos = 0,
      uuids = (\<lambda>i. ''uuid-'' @ show_nat i),
      upos = 0,
      accounts = (\<lambda>i. ''000000000'' @ show_nat (i mod 10)),
      apos = 0,
      toISOString = (\<lambda>t. show_int t),
      decodeURIComponent = (\<lambda>s. if CHR ''%'' \<in> set s then None else Some s),
      logged = []\<rparr>"

definition request_with :: "string \<Rightarrow> string \<Rightarrow> (string \<rightharpoonup> string) \<Rightarrow> (string \<rightharpoonup> json) \<Rightarrow> request" where
  "request_with m p hs b =
     \<lparr>req_method = m, req_path = p, req_headers = hs,
      req_query = JObj [], req_ip = ''::1'', req_body = b,
      traceId = None, transactionId = None\<rparr>"

definition payment_request :: "(string \<rightharpoonup> json) \<Rightarrow> request" where
  "payment_request b = request_with ''POST'' ''/api/payments'' Map.empty b"

definition valid_payment :: "string \<rightharpoonup> json" where
  "valid_payment = [''amount'' \<mapsto> JNum 10, ''currency'' \<mapsto> JStr ''USD'', ''customerId'' \<mapsto> JStr ''c1'']"

definition empty_currency_payment :: "string \<rightharpoonup> json" where
  "empty_currency_payment =
     [''amount'' \<mapsto> JNum 10, ''currency'' \<mapsto> JStr [], ''customerId'' \<mapsto> JStr ''c1'']"

definition refund_request :: "(string \<rightharpoonup> json) \<Rightarrow> request" where
  "refund_request b = request_with ''POST'' ''/api/refunds'' Map.empty b"

definition valid_refund :: "string \<rightharpoonup> json" where
  "valid_refund = [''paymentId'' \<mapsto> JStr ''pmt_x'', ''amount'' \<mapsto> JNum 5]"

definition lookup_request :: "string \<Rightarrow> request" where
  "lookup_request paymentId =
     request_with ''GET'' (''/api/payments/'' @ paymentId) Map.empty Map.empty"

definition traced_request :: "string \<Rightarrow> request" where
  "traced_request h =
     request_with ''GET'' ''/health'' [''x-trace-id'' \<mapsto> h] Map.empty"



definition paid :: "string \<Rightarrow> reply" where
  "paid paymentId =
     Reply 200 [''success'' \<mapsto> JBool True, ''payment_id'' \<mapsto> JStr paymentId]"

section \<open>Properties of the rounding\<close>

subsection \<open>\<open>fl\<close> returns a nearest double\<close>

lemma round_half_even_nearest:
  "\<bar>of_int (round_half_even q) - q\<bar> \<le> \<bar>of_int j - q\<bar>"
proof -
  have f: "of_int \<lfloor>q\<rfloor> \<le> q" "q < of_int \<lfloor>q\<rfloor> + 1"
    by linarith+
  consider "j \<le> \<lfloor>q\<rfloor>" | "\<lfloor>q\<rfloor> + 1 \<le> j"
    by linarith
  then show ?thesis
  proof cases
    case 1
    then have "(of_int j :: real) \<le> of_int \<lfloor>q\<rfloor>"
      by simp
    with f show ?thesis
      by (simp add: round_half_even_def Let_def) linarith
  next
    case 2
    then have "(of_int \<lfloor>q\<rfloor> :: real) + 1 \<le> of_int j"
      by (metis of_int_1 of_int_add of_int_le_iff)
    with f show ?thesis
      by (simp add: round_half_even_def Let_def) linarith
  qed
qed

lemma abs_scaled:
  fixes a X p :: real
  assumes "0 < p"
  shows "\<bar>a * p - X\<bar> = \<bar>a - X / p\<bar> * p"
proof -
  from assms have "a * p - X = (a - X / p) * p"
    by (simp add: field_simps)
  then have "\<bar>a * p - X\<bar> = \<bar>a - X / p\<bar> * \<bar>p\<bar>"
    by (simp only: abs_mult)
  with assms show ?thesis
    by simp
qed

lemma fl_nearest_scaled:
  fixes X :: real and m t :: nat
  assumes X: "0 \<le> X" and m: "m < 2 ^ 53"
  defines "s \<equiv> nat (bitlen \<lfloor>X\<rfloor> - 53)"
  shows "\<bar>of_int (round_half_even (X / 2 ^ s)) * 2 ^ s - X\<bar> \<le> \<bar>real m * 2 ^ t - X\<bar>"
proof -
  have p: "(0::real) < 2 ^ s"
    by simp
  have mult: "\<bar>of_int (round_half_even (X / 2 ^ s)) * 2 ^ s - X\<bar> \<le> \<bar>of_int j * 2 ^ s - X\<bar>" for j
  proof -
    have "\<bar>of_int (round_half_even (X / 2 ^ s)) - X / 2 ^ s\<bar> * 2 ^ s
            \<le> \<bar>of_int j - X / 2 ^ s\<bar> * 2 ^ s"
      using round_half_even_nearest [of "X / 2 ^ s" j] p by (simp only: mult_le_cancel_right) simp
    then show ?thesis
      by (simp only: abs_scaled [OF p])
  qed
  show ?thesis
  proof (cases "s \<le> t")
    case True
    then have "(2::real) ^ t = 2 ^ (t - s) * 2 ^ s"
      by (simp add: power_add [symmetric])
    then have e: "real m * 2 ^ t = of_int (int m * 2 ^ (t - s)) * 2 ^ s"
      by simp
    show ?thesis
      unfolding e by (rule mult)
  next
    case False
    then have ts: "t < s"
      by simp
    then have s0: "0 < s"
      by simp
    then have b: "bitlen \<lfloor>X\<rfloor> = 53 + int s"
      by (simp add: s_def)
    then have "0 < bitlen \<lfloor>X\<rfloor>"
      by simp
    then have N: "0 < \<lfloor>X\<rfloor>"
      by (simp add: bitlen_def floorlog_def split: if_splits)
    from bitlen_bounds [OF N] have "2 ^ nat (bitlen \<lfloor>X\<rfloor> - 1) \<le> \<lfloor>X\<rfloor>"
      by simp
    moreover have "nat (bitlen \<lfloor>X\<rfloor> - 1) = 52 + s"
      using b by simp
    ultimately have "(2::int) ^ (52 + s) \<le> \<lfloor>X\<rfloor>"
      by simp
    then have "real_of_int (2 ^ (52 + s)) \<le> X"
      by (simp only: le_floor_iff)
    then have lo: "(2::real) ^ (52 + s) \<le> X"
      by simp
    from ts have "t + 1 \<le> s"
      by simp
    then have "(2::real) ^ (t + 1) \<le> 2 ^ s"
      by (rule power_increasing) simp
    then have t2: "(2::real) ^ t * 2 \<le> 2 ^ s"
      by simp
    from m have "real m < 2 ^ 53"
      by (metis of_nat_less_iff of_nat_numeral of_nat_power)
    then have "real m * 2 ^ t < 2 ^ 53 * 2 ^ t"
      by simp
    also have "\<dots> = 2 ^ 52 * (2 ^ t * 2)"
      by simp
    also have "\<dots> \<le> 2 ^ 52 * 2 ^ s"
      using t2 by (rule mult_left_mono) simp
    finally have up: "real m * 2 ^ t < 2 ^ (52 + s)"
      by (simp add: power_add)
    from mult [of "2 ^ 52"] have "\<bar>of_int (round_half_even (X / 2 ^ s)) * 2 ^ s - X\<bar>
           \<le> \<bar>2 ^ (52 + s) - X\<bar>"
      by (simp add: power_add)
    with lo up show ?thesis
      by linarith
  qed
qed

lemma min_double_pos: "0 < min_double"
  by (simp add: min_double_def)

lemma fl_zero: "fl 0 = 0"
  by (simp add: fl_def)

lemma fl_nearest:
  fixes x :: real and m t :: nat
  assumes "0 \<le> x" "m < 2 ^ 53"
  shows "\<bar>fl x - x\<bar> \<le> \<bar>real m * 2 ^ t * min_double - x\<bar>"
proof (cases "x = 0")
  case True
  then show ?thesis
    by (simp add: fl_zero)
next
  case False
  with assms have x: "0 < x"
    by simp
  define X where "X = x / min_double"
  define s where "s = nat (bitlen \<lfloor>X\<rfloor> - 53)"
  note c = min_double_pos
  have X0: "0 \<le> X"
    using x c by (simp add: X_def)
  have f: "fl x = of_int (round_half_even (X / 2 ^ s)) * 2 ^ s * min_double"
    using x by (simp add: fl_def Let_def X_def s_def)
  have xX: "X = x / min_double"
    by (simp add: X_def)
  have "\<bar>fl x - x\<bar> = \<bar>of_int (round_half_even (X / 2 ^ s)) * 2 ^ s - X\<bar> * min_double"
    unfolding f xX by (simp only: abs_scaled [OF c, symmetric])
  also have "\<dots> \<le> \<bar>real m * 2 ^ t - X\<bar> * min_double"
    using fl_nearest_scaled [OF X0 assms(2), of t] c
    by (simp only: s_def [symmetric] mult_le_cancel_right) simp
  also have "\<dots> = \<bar>real m * 2 ^ t * min_double - x\<bar>"
    unfolding xX by (simp only: abs_scaled [OF c, symmetric])
  finally show ?thesis .
qed

lemma dyadic:
  fixes m e :: nat
  assumes "e \<le> 1074"
  shows "real m / 2 ^ e = real m * 2 ^ (1074 - e) * min_double"
proof -
  have "(2::real) ^ 1074 = 2 ^ (e + (1074 - e))"
    using assms by simp
  also have "\<dots> = 2 ^ e * 2 ^ (1074 - e)"
    by (rule power_add)
  finally have h: "min_double = 1 / (2 ^ e * 2 ^ (1074 - e))"
    by (simp only: min_double_def)
  show ?thesis
    unfolding h by simp
qed

lemma fl_nearest_dyadic:
  fixes x :: real and m e :: nat
  assumes "0 \<le> x" "m < 2 ^ 53" "e \<le> 1074"
  shows "\<bar>fl x - x\<bar> \<le> \<bar>real m / 2 ^ e - x\<bar>"
  using fl_nearest [OF assms(1,2), of "1074 - e"] by (simp only: dyadic [OF assms(3)])

lemma fl_le:
  fixes x :: real and m e :: nat
  assumes "0 \<le> x" "m < 2 ^ 53" "e \<le> 1074" "x \<le> real m / 2 ^ e"
  shows "fl x \<le> real m / 2 ^ e"
  using fl_nearest_dyadic [OF assms(1-3)] assms(4) by linarith

lemma fl_ge:
  fixes x :: real and m e :: nat
  assumes "m < 2 ^ 53" "e \<le> 1074" "real m / 2 ^ e \<le> x"
  shows "real m / 2 ^ e \<le> fl x"
proof -
  have "0 \<le> real m / 2 ^ e"
    by simp
  with assms(3) have "0 \<le> x"
    by linarith
  from fl_nearest_dyadic [OF this assms(1,2)] assms(3) show ?thesis
    by linarith
qed

lemma fl_less:
  fixes x B :: real and m e :: nat
  assumes "0 \<le> x" "m < 2 ^ 53" "e \<le> 1074" "real m / 2 ^ e < B" "2 * x < real m / 2 ^ e + B"
  shows "fl x < B"
  using fl_nearest_dyadic [OF assms(1-3)] assms(4,5) by linarith

lemma fl_double:
  fixes m e :: nat
  assumes "m < 2 ^ 53" "e \<le> 1074"
  shows "fl (real m / 2 ^ e) = real m / 2 ^ e"
  using fl_nearest_dyadic [OF _ assms, of "real m / 2 ^ e"] by simp

subsection \<open>The whole part of a rounded number\<close>

lemma floor_fl:
  fixes x :: real
  assumes "0 \<le> x" "x < 2047"
  shows "\<lfloor>x\<rfloor> \<le> \<lfloor>fl x\<rfloor>" and "\<lfloor>fl x\<rfloor> \<le> \<lfloor>x + 1 / 2 ^ 43\<rfloor>"
proof -
  define m where "m = nat \<lfloor>x\<rfloor>"
  from assms have f: "0 \<le> \<lfloor>x\<rfloor>" "\<lfloor>x\<rfloor> < 2047"
    by (simp_all add: floor_less_iff)
  then have "m < 2047"
    unfolding m_def by linarith
  then have m1: "m < 2 ^ 53"
    by simp
  from f have m2: "real m = of_int \<lfloor>x\<rfloor>"
    by (simp add: m_def)
  note m = m1 m2
  have "real m / 2 ^ 0 \<le> x"
    using m(2) by simp
  from fl_ge [OF m(1) _ this] have "of_int \<lfloor>x\<rfloor> \<le> fl x"
    using m(2) by simp
  then show "\<lfloor>x\<rfloor> \<le> \<lfloor>fl x\<rfloor>"
    by (simp add: le_floor_iff)
  define k where "k = \<lfloor>x + 1 / 2 ^ 43\<rfloor>"
  have k: "of_int k \<le> x + 1 / 2 ^ 43" "x + 1 / 2 ^ 43 < of_int k + 1"
    unfolding k_def by linarith+
  from assms k have "0 \<le> k" "k < 2048"
    by (simp_all add: k_def floor_less_iff)
  define z where "z = (k + 1) * 2 ^ 42 - 1"
  define n where "n = nat z"
  from \<open>0 \<le> k\<close> \<open>k < 2048\<close> have z: "z < 2 ^ 53" "0 \<le> z"
    by (simp_all add: z_def)
  from z have n1: "n < 2 ^ 53"
    unfolding n_def by (simp add: nat_less_iff)
  from z have "int n = z"
    by (simp add: n_def)
  then have n0: "int n = (k + 1) * 2 ^ 42 - 1"
    by (simp only: z_def)
  have "real n = real_of_int (int n)"
    by simp
  also have "\<dots> = real_of_int ((k + 1) * 2 ^ 42 - 1)"
    by (simp only: n0)
  also have "\<dots> = (of_int k + 1) * 2 ^ 42 - 1"
    by simp
  finally have n2: "real n = (of_int k + 1) * 2 ^ 42 - 1" .
  note n = n1 n2
  have d: "real n / 2 ^ 42 = of_int k + 1 - 1 / 2 ^ 42"
    unfolding n(2) by (simp add: field_simps)
  have "fl x < of_int k + 1"
  proof (rule fl_less [OF assms(1) n(1), of 42])
    show "real n / 2 ^ 42 < of_int k + 1"
      unfolding d by simp
    show "2 * x < real n / 2 ^ 42 + (of_int k + 1)"
      unfolding d using k(2) by simp
  qed simp
  then have "fl x < of_int (k + 1)"
    by simp
  then have "\<lfloor>fl x\<rfloor> < k + 1"
    by (simp only: floor_less_iff)
  then show "\<lfloor>fl x\<rfloor> \<le> \<lfloor>x + 1 / 2 ^ 43\<rfloor>"
    unfolding k_def [symmetric] by simp
qed

lemma fl_scaled_less:
  fixes y :: real and n :: nat
  assumes y: "0 \<le> y" "y \<le> 1 - 1 / 2 ^ 53" and n: "0 < n" "n < 2 ^ 52"
  shows "fl (y * real n) < real n"
proof -
  from n(1) have "1 \<le> n"
    by simp
  from ex_power_ivl1 [OF _ this, of 2] obtain e where e: "2 ^ e \<le> n" "n < 2 ^ (e + 1)"
    by auto
  from e(1) n(2) have "(2::nat) ^ e < 2 ^ 52"
    by (rule le_less_trans)
  then have e52: "e < 52"
    by (simp only: power_strict_increasing_iff)
  have x0: "0 \<le> y * real n"
    using y(1) by simp
  have x1: "y * real n \<le> real n - real n / 2 ^ 53"
  proof -
    have "y * real n \<le> (1 - 1 / 2 ^ 53) * real n"
      using y(2) by (rule mult_right_mono) simp
    then show ?thesis
      by (simp add: left_diff_distrib)
  qed
  show ?thesis
  proof (cases "n = 2 ^ e")
    case True
    define m :: nat where "m = 2 ^ 53 - 1"
    have m: "m < 2 ^ 53" "real m = 2 ^ 53 - 1"
      by (simp_all add: m_def)
    have "(2::real) ^ 53 = 2 ^ (e + (53 - e))"
      using e52 by simp
    also have "\<dots> = 2 ^ e * 2 ^ (53 - e)"
      by (rule power_add)
    finally have p: "(2::real) ^ 53 = 2 ^ e * 2 ^ (53 - e)" .
    have rn: "real n = 2 ^ e"
      using True by simp
    have "real n - real n / 2 ^ 53 = real n * real m / 2 ^ 53"
      unfolding m(2) by (simp add: field_simps)
    also have "\<dots> = 2 ^ e * real m / (2 ^ e * 2 ^ (53 - e))"
      by (simp only: rn p)
    also have "\<dots> = real m / 2 ^ (53 - e)"
      by simp
    finally have d: "real n - real n / 2 ^ 53 = real m / 2 ^ (53 - e)" .
    from x1 have "y * real n \<le> real m / 2 ^ (53 - e)"
      by (simp only: d)
    from fl_le [OF x0 m(1) _ this] have "fl (y * real n) \<le> real n - real n / 2 ^ 53"
      by (simp only: d)
    moreover have "0 < real n / 2 ^ 53"
      using n(1) by simp
    ultimately show ?thesis
      by linarith
  next
    case False
    with e(1) have lt: "2 ^ e < n"
      by simp
    define z where "z = n * 2 ^ (52 - e) - 1"
    have "(2::nat) ^ 53 = 2 ^ ((e + 1) + (52 - e))"
      using e52 by simp
    also have "\<dots> = 2 ^ (e + 1) * 2 ^ (52 - e)"
      by (rule power_add)
    finally have p: "(2::nat) ^ 53 = 2 ^ (e + 1) * 2 ^ (52 - e)" .
    from e(2) have "n * 2 ^ (52 - e) < 2 ^ (e + 1) * 2 ^ (52 - e)"
      by simp
    then have "n * 2 ^ (52 - e) < 2 ^ 53"
      by (simp only: p)
    then have z: "z < 2 ^ 53"
      unfolding z_def by linarith
    have "0 < n * 2 ^ (52 - e)"
      using n(1) by simp
    then have "real z = real (n * 2 ^ (52 - e)) - 1"
      unfolding z_def by (simp add: of_nat_diff)
    then have rz: "real z = real n * 2 ^ (52 - e) - 1"
      by simp
    have d: "real z / 2 ^ (52 - e) = real n - 1 / 2 ^ (52 - e)"
      unfolding rz by (simp add: field_simps)
    have "(2::real) ^ 53 = 2 ^ ((e + 1) + (52 - e))"
      using e52 by simp
    also have "\<dots> = 2 ^ (e + 1) * 2 ^ (52 - e)"
      by (rule power_add)
    finally have q: "(2::real) ^ 53 = 2 * 2 ^ e * 2 ^ (52 - e)"
      by simp
    from lt have "real (2 ^ e) < real n"
      by (simp only: of_nat_less_iff)
    then have lt': "(2::real) ^ e < real n"
      by simp
    have half: "1 / 2 ^ (52 - e) < 2 * (real n / 2 ^ 53)"
      unfolding q using lt' by (simp add: field_simps)
    show ?thesis
    proof (rule fl_less [OF x0 z, of "52 - e"])
      show "52 - e \<le> 1074"
        by simp
      show "real z / 2 ^ (52 - e) < real n"
        unfolding d by simp
      show "2 * (y * real n) < real z / 2 ^ (52 - e) + real n"
        unfolding d using x1 half by linarith
    qed
  qed
qed

subsection \<open>The value of \<open>fl\<close> at a given number\<close>

lemma round_half_even_eq:
  assumes "\<bar>q - of_int j\<bar> < 1 / 2"
  shows "round_half_even q = j"
proof -
  consider "of_int j \<le> q" | "q < of_int j"
    by linarith
  then show ?thesis
  proof cases
    case 1
    with assms have "of_int j \<le> q \<and> q < of_int j + 1"
      by linarith
    then have "\<lfloor>q\<rfloor> = j"
      by (simp only: floor_eq_iff)
    with assms 1 show ?thesis
      by (simp add: round_half_even_def Let_def)
  next
    case 2
    with assms have "of_int (j - 1) \<le> q \<and> q < of_int (j - 1) + 1"
      by (simp; linarith)
    then have "\<lfloor>q\<rfloor> = j - 1"
      by (simp only: floor_eq_iff)
    with assms 2 show ?thesis
      by (simp add: round_half_even_def Let_def; linarith)
  qed
qed

lemma fl_eqI:
  fixes x :: real and m e :: nat
  assumes m: "2 ^ 52 < m" "m < 2 ^ 53" and e: "e \<le> 1074"
    and x: "\<bar>x - real m / 2 ^ e\<bar> < 1 / 2 ^ (e + 1)"
  shows "fl x = real m / 2 ^ e"
proof -
  define s where "s = 1074 - e"
  define X where "X = x / min_double"
  define q where "q = X / 2 ^ s"
  have u: "1 / 2 ^ e = 2 ^ s * min_double"
    using dyadic [OF e, of 1] by (simp add: s_def)
  have c: "0 < min_double"
    by (rule min_double_pos)
  have qx: "q = x * 2 ^ e"
  proof -
    have "x = x * 2 ^ e * (1 / 2 ^ e)"
      by simp
    also have "\<dots> = x * 2 ^ e * (2 ^ s * min_double)"
      by (simp only: u)
    finally have "x = (x * 2 ^ e) * 2 ^ s * min_double"
      by simp
    then have "x / min_double / 2 ^ s = x * 2 ^ e"
      using c by (simp add: field_simps)
    then show ?thesis
      by (simp add: q_def X_def)
  qed
  have "\<bar>x * 2 ^ e - real m\<bar> = \<bar>x - real m / 2 ^ e\<bar> * 2 ^ e"
    by (rule abs_scaled [of "2 ^ e" x "real m", unfolded mult.commute [of x], folded mult.commute [of x]]) simp
  also have "\<dots> < 1 / 2 ^ (e + 1) * 2 ^ e"
    using x by (simp only: mult_less_cancel_right_pos zero_less_power zero_less_numeral)
  also have "\<dots> = 1 / 2"
    by simp
  finally have near: "\<bar>q - real m\<bar> < 1 / 2"
    by (simp only: qx)
  have rm: "2 ^ 52 + 1 \<le> real m" "real m \<le> 2 ^ 53 - 1"
  proof -
    from m have "2 ^ 52 + 1 \<le> m" "m \<le> 2 ^ 53 - 1"
      by simp_all
    then have "real (2 ^ 52 + 1) \<le> real m" "real m \<le> real (2 ^ 53 - 1)"
      by (simp_all only: of_nat_le_iff)
    then show "2 ^ 52 + 1 \<le> real m" "real m \<le> 2 ^ 53 - 1"
      by simp_all
  qed
  from near rm have qb: "2 ^ 52 \<le> q" "q < 2 ^ 53"
    by linarith+
  have Xq: "X = q * 2 ^ s"
    by (simp add: q_def)
  have lo: "(2::real) ^ (52 + s) \<le> X"
    unfolding Xq power_add using qb(1) by (rule mult_right_mono) simp
  have hi: "X < 2 ^ (53 + s)"
    unfolding Xq power_add using qb(2) by (rule mult_strict_right_mono) simp
  from lo have "real_of_int (2 ^ (52 + s)) \<le> X"
    by simp
  then have N1: "2 ^ (52 + s) \<le> \<lfloor>X\<rfloor>"
    by (simp only: le_floor_iff)
  from hi have "X < real_of_int (2 ^ (53 + s))"
    by simp
  then have N2: "\<lfloor>X\<rfloor> < 2 ^ (53 + s)"
    by (simp only: floor_less_iff)
  have "bitlen \<lfloor>X\<rfloor> \<le> int (53 + s)"
    using N2 by (simp only: bitlen_le_iff_power nat_int) simp
  moreover have "int (53 + s) \<le> bitlen \<lfloor>X\<rfloor>"
    using N1 by (simp only: bitlen_ge_iff_power nat_int) simp
  ultimately have b: "nat (bitlen \<lfloor>X\<rfloor> - 53) = s"
    by simp
  have r: "round_half_even q = int m"
    by (rule round_half_even_eq) (use near in simp)
  have "0 < q"
    using qb(1) by (rule less_le_trans [rotated]) simp
  then have "0 < x"
    unfolding qx by (simp add: zero_less_mult_iff)
  then have "fl x = of_int (round_half_even (X / 2 ^ nat (bitlen \<lfloor>X\<rfloor> - 53)))
                      * 2 ^ nat (bitlen \<lfloor>X\<rfloor> - 53) * min_double"
    by (simp add: fl_def Let_def X_def)
  also have "\<dots> = real m * 2 ^ s * min_double"
    unfolding b q_def [symmetric] r by simp
  also have "\<dots> = real m / 2 ^ e"
    unfolding s_def by (rule dyadic [OF e, symmetric])
  finally show ?thesis .
qed

lemma literals:
  "fl 0.6 = 5404319552844595 / 2 ^ 53"
  "fl 0.8 = 7205759403792794 / 2 ^ 53"
  "fl 0.95 = 8556839292003942 / 2 ^ 53"
  "fl 0.15 = 5404319552844595 / 2 ^ 55"
  "fl 0.5 = 1 / 2"
proof -
  show "fl 0.6 = 5404319552844595 / 2 ^ 53"
    using fl_eqI [of 5404319552844595 53 "0.6"] by simp
  show "fl 0.8 = 7205759403792794 / 2 ^ 53"
    using fl_eqI [of 7205759403792794 53 "0.8"] by simp
  show "fl 0.95 = 8556839292003942 / 2 ^ 53"
    using fl_eqI [of 8556839292003942 53 "0.95"] by simp
  show "fl 0.15 = 5404319552844595 / 2 ^ 55"
    using fl_eqI [of 5404319552844595 55 "0.15"] by simp
  show "fl 0.5 = 1 / 2"
    using fl_double [of 1 1] by simp
qed

section \<open>Properties of the payment service\<close>

subsection \<open>Sending a response\<close>

lemma res_end_fields:
  "statusCode (fst (res_end req p r w)) = statusCode r"
  "sent (fst (res_end req p r w)) = Some (p, clock w)"
  "res_headers (fst (res_end req p r w)) = res_headers r"
  "clock (snd (res_end req p r w)) = clock w"
  "rpos (snd (res_end req p r w)) = rpos w"
  "apos (snd (res_end req p r w)) = apos w"
  "upos (snd (res_end req p r w)) = upos w"
  by (simp_all add: res_end_def Let_def logger_info_def split: option.splits)

lemma res_json_fields:
  "statusCode (fst (res_json req obj r w)) = statusCode r"
  "sent (fst (res_json req obj r w)) = Some (JObj obj, clock w)"
  "res_headers (fst (res_json req obj r w)) = res_headers r"
  "clock (snd (res_json req obj r w)) = clock w"
  "rpos (snd (res_json req obj r w)) = rpos w"
  "apos (snd (res_json req obj r w)) = apos w"
  "upos (snd (res_json req obj r w)) = upos w"
  by (simp_all add: res_json_def res_end_fields)

subsection \<open>Reading the log\<close>

lemma lookup_jprop_append:
  "lookup k (jprop k' x @ rest) = (if k' = k \<and> x \<noteq> None then x else lookup k rest)"
  by (cases x) simp_all

lemma lookup_str_prop_append:
  "lookup k (str_prop k' s @ rest) =
     (if k' = k \<and> s \<noteq> None then map_option JStr s else lookup k rest)"
  by (cases s) (simp_all add: str_prop_def)

lemma lookup_log_head:
  "lookup k (log_head req msg @ rest) =
     (if ''trace_id'' = k \<and> traceId req \<noteq> None then map_option JStr (traceId req)
      else if ''transaction_id'' = k \<and> transactionId req \<noteq> None
           then map_option JStr (transactionId req)
      else if ''message'' = k then Some (JStr msg)
      else if ''method'' = k then Some (JStr (req_method req))
      else if ''path'' = k then Some (JStr (req_path req))
      else lookup k rest)"
  by (cases "traceId req"; cases "transactionId req")
     (simp_all add: log_head_def str_prop_def)

lemma res_end_logged:
  "logged (snd (res_end req p r w)) = logged w @ completed_event req r w"
  by (simp add: completed_event_def new_events_def res_end_def Let_def logger_info_def
      split: option.splits)

lemma res_json_logged:
  "logged (snd (res_json req obj r w)) = logged w @ completed_event req r w"
  by (simp add: res_json_def res_end_logged)

lemma completed_event_None: "end_start r = None \<Longrightarrow> completed_event req r w = []"
  by (simp add: completed_event_def new_events_def res_end_def)

lemma completed_event_Some:
  "end_start r = Some start \<Longrightarrow> \<exists>ps. completed_event req r w =
    [\<lparr>lvl = LInfo, logged_at = clock w,
      props = str_prop ''trace_id'' (traceId req) @
              str_prop ''transaction_id'' (transactionId req) @
              (''message'', JStr ''Request completed'') #
              (''method'', JStr (req_method req)) #
              (''path'', JStr (req_path req)) #
              (''status_code'', JNum (real (statusCode r))) #
              (''response_time'', JNum (real_of_int (clock w - start))) #
              (''endpoint'', JStr (endpoint req)) #
              (''event_type'', JStr ''response'') # ps\<rparr>]
    \<and> lookup ''trace_id'' ps = None \<and> lookup ''transaction_id'' ps = None"
  by (simp add: completed_event_def new_events_def res_end_def Let_def logger_info_def)


lemma completed_event_cases:
  "completed_event req r w = [] \<and> end_start r = None
   \<or> (\<exists>e. completed_event req r w = [e] \<and> end_start r \<noteq> None
          \<and> prop_of ''event_type'' e = Some (JStr ''response'')
          \<and> prop_of ''trace_id'' e = map_option JStr (traceId req)
          \<and> prop_of ''transaction_id'' e = map_option JStr (transactionId req))"
proof (cases "end_start r")
  case None
  then show ?thesis
    by (simp add: completed_event_None)
next
  case (Some start)
  from completed_event_Some [OF Some, of req w] obtain e ps where
    e: "completed_event req r w = [e]" and
    p: "props e = str_prop ''trace_id'' (traceId req) @
              str_prop ''transaction_id'' (transactionId req) @
              (''message'', JStr ''Request completed'') #
              (''method'', JStr (req_method req)) #
              (''path'', JStr (req_path req)) #
              (''status_code'', JNum (real (statusCode r))) #
              (''response_time'', JNum (real_of_int (clock w - start))) #
              (''endpoint'', JStr (endpoint req)) #
              (''event_type'', JStr ''response'') # ps" and
    n: "lookup ''trace_id'' ps = None" "lookup ''transaction_id'' ps = None"
    by auto
  have "prop_of ''event_type'' e = Some (JStr ''response'')"
    unfolding prop_of_def p by (simp add: lookup_str_prop_append)
  moreover have "prop_of ''trace_id'' e = map_option JStr (traceId req)"
    unfolding prop_of_def p using n by (cases "traceId req") (simp_all add: lookup_str_prop_append)
  moreover have "prop_of ''transaction_id'' e = map_option JStr (transactionId req)"
    unfolding prop_of_def p
    using n by (cases "transactionId req") (simp_all add: lookup_str_prop_append)
  ultimately show ?thesis
    using e Some by simp
qed

subsection \<open>A payment request with a missing field\<close>

lemma post_payments_missing:
  assumes "\<not> truthy (req_body req ''amount'') \<or> \<not> truthy (req_body req ''currency'')
           \<or> \<not> truthy (req_body req ''customerId'')"
  shows "post_payments req r w =
     res_json req
       [(''success'', JBool False), (''error'', JStr ''Missing required fields for payment'')]
       (res_status 400 r)
       (logger_error
          (log_head req ''Payment validation failed'' @
           [(''status_code'', JNum 400),
            (''error'', JStr ''Missing required fields''),
            (''validation_errors'', JObj
               [(''amount'', if \<not> truthy (req_body req ''amount'') then JStr ''Amount is required'' else JNull),
                (''currency'', if \<not> truthy (req_body req ''currency'') then JStr ''Currency is required'' else JNull),
                (''customerId'', if \<not> truthy (req_body req ''customerId'') then JStr ''Customer ID is required'' else JNull)]),
            (''event_type'', JStr ''payment_validation_error'')]) w)"
  using assms unfolding post_payments_def Let_def by (simp only: if_True)

text \<open>
  Claim C3. When \<open>amount\<close>, \<open>currency\<close> or \<open>customerId\<close> is absent from the body, whatever
  the other fields hold, the handler of \<open>POST /api/payments\<close> answers with status 400 and
  the body \<open>{success: false, error}\<close>. The answer is sent at the instant the handler
  started: the clock has not moved, so no delay was applied. No result of \<open>Math.random()\<close>
  was used, so neither a delay nor an outcome was drawn, and no account number was taken
  from faker, so no payment id was made.
\<close>

theorem payment_missing_field_rejected:
  assumes "req_body req ''amount'' = None \<or> req_body req ''currency'' = None
           \<or> req_body req ''customerId'' = None"
  shows "statusCode (fst (post_payments req r w)) = 400
       \<and> sent (fst (post_payments req r w)) =
           Some (JObj [(''success'', JBool False),
                       (''error'', JStr ''Missing required fields for payment'')], clock w)
       \<and> clock (snd (post_payments req r w)) = clock w
       \<and> rpos (snd (post_payments req r w)) = rpos w
       \<and> apos (snd (post_payments req r w)) = apos w"
proof -
  from assms have m: "\<not> truthy (req_body req ''amount'') \<or> \<not> truthy (req_body req ''currency'')
           \<or> \<not> truthy (req_body req ''customerId'')"
    by auto
  show ?thesis
    unfolding post_payments_missing [OF m]
    by (simp add: res_json_fields res_status_def logger_error_def)
qed

theorem payment_missing_field_rejected_witness:
  "req_body (payment_request [''amount'' \<mapsto> JNum 10, ''customerId'' \<mapsto> JStr ''c1'']) ''currency'' = None
   \<and> statusCode (fst (post_payments
         (payment_request [''amount'' \<mapsto> JNum 10, ''customerId'' \<mapsto> JStr ''c1''])
         new_res (world_with []))) = 400
   \<and> rpos (snd (post_payments
         (payment_request [''amount'' \<mapsto> JNum 10, ''customerId'' \<mapsto> JStr ''c1''])
         new_res (world_with []))) = 0"
proof -
  have h: "req_body (payment_request [''amount'' \<mapsto> JNum 10, ''customerId'' \<mapsto> JStr ''c1'']) ''currency'' = None"
    by (simp add: payment_request_def request_with_def)
  have w: "rpos (world_with []) = 0"
    by (simp add: world_with_def)
  from h have "req_body (payment_request [''amount'' \<mapsto> JNum 10, ''customerId'' \<mapsto> JStr ''c1'']) ''amount'' = None
       \<or> req_body (payment_request [''amount'' \<mapsto> JNum 10, ''customerId'' \<mapsto> JStr ''c1'']) ''currency'' = None
       \<or> req_body (payment_request [''amount'' \<mapsto> JNum 10, ''customerId'' \<mapsto> JStr ''c1'']) ''customerId'' = None"
    by simp
  from payment_missing_field_rejected [OF this, of new_res "world_with []"] h w
  show ?thesis by simp
qed

subsection \<open>Counting on the grid\<close>

lemma finite_grid: "finite (grid n)"
  by (simp add: grid_def)

lemma card_grid:
  assumes "0 < n"
  shows "card (grid n) = n"
proof -
  have "inj_on (\<lambda>k. real k / real n) {0..<n}"
    using assms by (auto simp: inj_on_def)
  then show ?thesis
    by (simp add: grid_def card_image)
qed

lemma grid_below:
  assumes "0 < n" "k \<le> n"
  shows "{x \<in> grid n. x < real k / real n} = (\<lambda>j. real j / real n) ` {0..<k}"
proof (intro set_eqI iffI)
  fix x
  assume "x \<in> {x \<in> grid n. x < real k / real n}"
  then obtain j where j: "j < n" "x = real j / real n" and lt: "x < real k / real n"
    by (auto simp: grid_def)
  from lt j assms have "j < k"
    by (simp add: divide_less_cancel)
  with j show "x \<in> (\<lambda>j. real j / real n) ` {0..<k}"
    by simp
next
  fix x
  assume "x \<in> (\<lambda>j. real j / real n) ` {0..<k}"
  then obtain j where j: "j < k" "x = real j / real n"
    by auto
  from j assms have "x < real k / real n"
    by (simp add: divide_less_cancel)
  moreover from j assms have "x \<in> grid n"
    by (simp add: grid_def)
  ultimately show "x \<in> {x \<in> grid n. x < real k / real n}"
    by simp
qed

lemma card_grid_below:
  assumes "0 < n" "k \<le> n"
  shows "card {x \<in> grid n. x < real k / real n} = k"
proof -
  have "inj_on (\<lambda>j. real j / real n) {0..<k}"
    using assms by (auto simp: inj_on_def)
  then show ?thesis
    by (simp add: grid_below [OF assms] card_image)
qed

lemma card_grid_not_below:
  assumes "0 < n" "k \<le> n"
  shows "card {x \<in> grid n. \<not> x < real k / real n} = n - k"
proof -
  have "{x \<in> grid n. \<not> x < real k / real n} = grid n - {x \<in> grid n. x < real k / real n}"
    by auto
  moreover have "card (grid n - {x \<in> grid n. x < real k / real n}) =
                 card (grid n) - card {x \<in> grid n. x < real k / real n}"
    by (rule card_Diff_subset) (auto simp: finite_grid)
  ultimately show ?thesis
    by (simp add: card_grid card_grid_below assms)
qed

lemma thresholds:
  assumes "0 < m"
  shows "(5 / 100 :: real) = real (50 * m) / real (1000 * m)"
    and "(1 / 10 :: real) = real (100 * m) / real (1000 * m)"
    and "(2 / 10 :: real) = real (200 * m) / real (1000 * m)"
  using assms by simp_all

subsection \<open>A payment request with all three fields\<close>

lemma post_payments_valid_status:
  assumes "truthy (req_body req ''amount'')" "truthy (req_body req ''currency'')"
          "truthy (req_body req ''customerId'')"
  shows "statusCode (fst (post_payments req r w)) =
         (if randoms w (rpos w + 2) < 0.05 then 504
          else if randoms w (rpos w + 3) < 0.1 then 400
          else if randoms w (rpos w + 1) < 0.2 then 500 else 200)"
  using assms
  by (simp add: post_payments_def payment_callback_def Let_def split_def Math_random_def
      faker_finance_account_def logger_info_def logger_error_def setTimeout_def
      res_json_fields res_status_def numeral_2_eq_2 numeral_3_eq_3)

lemma with_draws_status:
  assumes "truthy (req_body req ''amount'')" "truthy (req_body req ''currency'')"
          "truthy (req_body req ''customerId'')"
  shows "statusCode (fst (post_payments req r (with_draws w f t v))) =
         (if t < 0.05 then 504 else if v < 0.1 then 400 else if f < 0.2 then 500 else 200)"
  by (simp add: post_payments_valid_status [OF assms] with_draws_def)

lemma timeout_triples:
  assumes "truthy (req_body req ''amount'')" "truthy (req_body req ''currency'')"
          "truthy (req_body req ''customerId'')"
  shows "{(f, t, v). f \<in> grid n \<and> t \<in> grid n \<and> v \<in> grid n \<and>
             statusCode (fst (post_payments req r (with_draws w f t v))) = 504}
         = grid n \<times> {t \<in> grid n. t < 5 / 100} \<times> grid n"
  by (auto simp: with_draws_status [OF assms])

lemma validation_triples:
  assumes "truthy (req_body req ''amount'')" "truthy (req_body req ''currency'')"
          "truthy (req_body req ''customerId'')"
  shows "{(f, t, v). f \<in> grid n \<and> t \<in> grid n \<and> v \<in> grid n \<and>
             statusCode (fst (post_payments req r (with_draws w f t v))) = 400}
         = grid n \<times> {t \<in> grid n. \<not> t < 5 / 100} \<times> {v \<in> grid n. v < 1 / 10}"
  by (auto simp: with_draws_status [OF assms])

lemma failure_triples:
  assumes "truthy (req_body req ''amount'')" "truthy (req_body req ''currency'')"
          "truthy (req_body req ''customerId'')"
  shows "{(f, t, v). f \<in> grid n \<and> t \<in> grid n \<and> v \<in> grid n \<and>
             statusCode (fst (post_payments req r (with_draws w f t v))) = 500}
         = {f \<in> grid n. f < 2 / 10} \<times> {t \<in> grid n. \<not> t < 5 / 100} \<times> {v \<in> grid n. \<not> v < 1 / 10}"
  by (auto simp: with_draws_status [OF assms])

lemma success_triples:
  assumes "truthy (req_body req ''amount'')" "truthy (req_body req ''currency'')"
          "truthy (req_body req ''customerId'')"
  shows "{(f, t, v). f \<in> grid n \<and> t \<in> grid n \<and> v \<in> grid n \<and>
             statusCode (fst (post_payments req r (with_draws w f t v))) = 200}
         = {f \<in> grid n. \<not> f < 2 / 10} \<times> {t \<in> grid n. \<not> t < 5 / 100} \<times> {v \<in> grid n. \<not> v < 1 / 10}"
  by (auto simp: with_draws_status [OF assms])

lemma outcome_counts:
  assumes "truthy (req_body req ''amount'')" "truthy (req_body req ''currency'')"
          "truthy (req_body req ''customerId'')" and m: "0 < m"
  shows "outcome_count (1000 * m) req r w 504 = 1000 * m * (50 * m) * (1000 * m)"
    and "outcome_count (1000 * m) req r w 400 = 1000 * m * (950 * m) * (100 * m)"
    and "outcome_count (1000 * m) req r w 500 = 200 * m * (950 * m) * (900 * m)"
    and "outcome_count (1000 * m) req r w 200 = 800 * m * (950 * m) * (900 * m)"
proof -
  have n: "0 < 1000 * m" "50 * m \<le> 1000 * m" "100 * m \<le> 1000 * m" "200 * m \<le> 1000 * m"
    using m by simp_all
  note t = thresholds [OF m]
  have a: "card {t \<in> grid (1000 * m). t < 5 / 100} = 50 * m"
    unfolding t by (rule card_grid_below [OF n(1) n(2)])
  have a': "card {t \<in> grid (1000 * m). \<not> t < 5 / 100} = 950 * m"
    unfolding t using card_grid_not_below [OF n(1) n(2)] by simp
  have b: "card {t \<in> grid (1000 * m). t < 1 / 10} = 100 * m"
    unfolding t by (rule card_grid_below [OF n(1) n(3)])
  have b': "card {t \<in> grid (1000 * m). \<not> t < 1 / 10} = 900 * m"
    unfolding t using card_grid_not_below [OF n(1) n(3)] by simp
  have c: "card {t \<in> grid (1000 * m). t < 2 / 10} = 200 * m"
    unfolding t by (rule card_grid_below [OF n(1) n(4)])
  have c': "card {t \<in> grid (1000 * m). \<not> t < 2 / 10} = 800 * m"
    unfolding t using card_grid_not_below [OF n(1) n(4)] by simp
  have g: "card (grid (1000 * m)) = 1000 * m"
    by (rule card_grid [OF n(1)])
  show "outcome_count (1000 * m) req r w 504 = 1000 * m * (50 * m) * (1000 * m)"
    unfolding outcome_count_def timeout_triples [OF assms(1-3)]
    by (simp only: card_cartesian_product a g)
  show "outcome_count (1000 * m) req r w 400 = 1000 * m * (950 * m) * (100 * m)"
    unfolding outcome_count_def validation_triples [OF assms(1-3)]
    by (simp only: card_cartesian_product a' b g)
  show "outcome_count (1000 * m) req r w 500 = 200 * m * (950 * m) * (900 * m)"
    unfolding outcome_count_def failure_triples [OF assms(1-3)]
    by (simp only: card_cartesian_product a' b' c)
  show "outcome_count (1000 * m) req r w 200 = 800 * m * (950 * m) * (900 * m)"
    unfolding outcome_count_def success_triples [OF assms(1-3)]
    by (simp only: card_cartesian_product a' b' c')
qed

subsection \<open>The callback of a payment\<close>

lemma logger_info_fields:
  "logged (logger_info obj w) = logged w @ [\<lparr>lvl = LInfo, logged_at = clock w, props = obj\<rparr>]"
  "clock (logger_info obj w) = clock w"
  "randoms (logger_info obj w) = randoms w"
  "rpos (logger_info obj w) = rpos w"
  "apos (logger_info obj w) = apos w"
  "upos (logger_info obj w) = upos w"
  "toISOString (logger_info obj w) = toISOString w"
  by (simp_all add: logger_info_def)

lemma logger_error_fields:
  "logged (logger_error obj w) = logged w @ [\<lparr>lvl = LError, logged_at = clock w, props = obj\<rparr>]"
  "clock (logger_error obj w) = clock w"
  "randoms (logger_error obj w) = randoms w"
  "rpos (logger_error obj w) = rpos w"
  "apos (logger_error obj w) = apos w"
  "upos (logger_error obj w) = upos w"
  "toISOString (logger_error obj w) = toISOString w"
  by (simp_all add: logger_error_def)

lemma payment_callback_status:
  "statusCode (fst (payment_callback req r pid pt st sv sf a c cu w)) =
     (if st then 504 else if sv then 400 else if sf then 500 else 200)"
  by (simp add: payment_callback_def Let_def split_def res_json_fields res_status_def)

lemma payment_callback_sent_at:
  "sent_at (fst (payment_callback req r pid pt st sv sf a c cu w)) = Some (clock w)"
  by (simp add: payment_callback_def Let_def split_def res_json_fields sent_at_def
      logger_info_fields logger_error_fields Math_random_def)

lemma payment_callback_rpos:
  "rpos (snd (payment_callback req r pid pt st sv sf a c cu w)) =
     rpos w + (if \<not> st \<and> sv then 1 else 0)"
  by (simp add: payment_callback_def Let_def split_def res_json_fields
      logger_info_fields logger_error_fields Math_random_def)

lemma completed_event_clock:
  "clock w = clock w' \<Longrightarrow> completed_event req r w = completed_event req r w'"
  by (simp add: completed_event_def new_events_def res_end_def Let_def logger_info_def
      split: option.splits)

lemma completed_event_after:
  "completed_event req r (logger_info obj w) = completed_event req r w"
  "completed_event req r (logger_error obj w) = completed_event req r w"
  "completed_event req r (w\<lparr>rpos := n\<rparr>) = completed_event req r w"
  by (rule completed_event_clock, simp add: logger_info_def logger_error_def)+

lemma payment_callback_logged:
  "\<exists>e. logged (snd (payment_callback req r pid pt st sv sf a c cu w)) =
          logged w @ [e] @
          completed_event req
            (r\<lparr>statusCode := if st then 504 else if sv then 400 else if sf then 500 else 200\<rparr>) w
     \<and> prop_of ''event_type'' e =
         Some (JStr (if st then ''payment_timeout'' else if sv then ''payment_validation_error''
                     else if sf then ''payment_failure'' else ''payment_success''))
     \<and> prop_of ''processing_time'' e = Some (JNum (real_of_int pt))
     \<and> prop_of ''trace_id'' e = map_option JStr (traceId req)
     \<and> prop_of ''transaction_id'' e = map_option JStr (transactionId req)
     \<and> lvl e = (if st \<or> sv \<or> sf then LError else LInfo)
     \<and> prop_of ''error'' e =
         (if st then Some (JStr ''Payment gateway timeout'')
          else if sv then Some (JStr (if randoms w (rpos w) < 0.5 then ''Invalid card details''
                                      else ''Insufficient funds''))
          else if sf then Some (JStr ''Payment processor error'')
          else None)"
  by (simp add: payment_callback_def Let_def split_def res_json_logged res_status_def
      logger_info_fields logger_error_fields Math_random_def prop_of_def lookup_log_head
      lookup_jprop_append completed_event_after)

lemma setTimeout_fields:
  "logged (setTimeout ms w) = logged w"
  "clock (setTimeout ms w) = clock w + ms"
  "randoms (setTimeout ms w) = randoms w"
  "rpos (setTimeout ms w) = rpos w"
  "apos (setTimeout ms w) = apos w"
  "upos (setTimeout ms w) = upos w"
  "toISOString (setTimeout ms w) = toISOString w"
  by (simp_all add: setTimeout_def)

lemma post_payments_valid:
  assumes "truthy (req_body req ''amount'')" "truthy (req_body req ''currency'')"
          "truthy (req_body req ''customerId'')"
  shows "post_payments req r w =
     payment_callback req r (''pmt_'' @ accounts w (apos w))
       (\<lfloor>fl (randoms w (rpos w) * 1950)\<rfloor> + 50)
       (randoms w (rpos w + 2) < 0.05)
       (randoms w (rpos w + 3) < 0.1)
       (randoms w (rpos w + 1) < 0.2)
       (req_body req ''amount'') (req_body req ''currency'') (req_body req ''customerId'')
       (setTimeout (\<lfloor>fl (randoms w (rpos w) * 1950)\<rfloor> + 50)
          (logger_info
             (log_head req ''Processing payment'' @
              [(''payment_id'', JStr (''pmt_'' @ accounts w (apos w))),
               (''transaction_type'', JStr ''payment'')] @
              jprop ''amount'' (req_body req ''amount'') @
              jprop ''currency'' (req_body req ''currency'') @
              jprop ''customer_id'' (req_body req ''customerId'') @
              [(''estimated_processing_time'',
                JNum (real_of_int (\<lfloor>fl (randoms w (rpos w) * 1950)\<rfloor> + 50))),
               (''event_type'', JStr ''payment_processing'')])
             (w\<lparr>apos := apos w + 1, rpos := rpos w + 4\<rparr>)))"
  using assms
  by (simp add: post_payments_def Let_def split_def Math_random_def faker_finance_account_def
      numeral_2_eq_2 numeral_3_eq_3 numeral_Bit0 [of "Num.Bit0 Num.One"])

lemma new_events_eq: "logged w' = logged w @ es \<Longrightarrow> new_events w w' = es"
  by (simp add: new_events_def)

lemma payment_callback_body_error:
  "body_prop ''error'' (fst (payment_callback req r pid pt st sv sf a c cu w)) =
         (if st then Some (JStr ''Payment gateway timeout'')
          else if sv then Some (JStr (if randoms w (rpos w) < 0.5 then ''Invalid card details''
                                      else ''Insufficient funds''))
          else if sf then Some (JStr ''Payment processor error'')
          else None)"
  by (simp add: payment_callback_def Let_def split_def res_json_fields body_prop_def
      Math_random_def lookup_jprop_append)

lemma post_payments_valid_events:
  fixes req r w
  defines "w' \<equiv> snd (post_payments req r w)"
  defines "st \<equiv> randoms w (rpos w + 2) < 0.05"
  defines "sv \<equiv> randoms w (rpos w + 3) < 0.1"
  defines "sf \<equiv> randoms w (rpos w + 1) < 0.2"
  assumes valid: "truthy (req_body req ''amount'')" "truthy (req_body req ''currency'')"
          "truthy (req_body req ''customerId'')"
  shows "new_events w w' =
           (new_events w w' ! 0) # (new_events w w' ! 1) #
           completed_event req
             (r\<lparr>statusCode := if st then 504 else if sv then 400 else if sf then 500 else 200\<rparr>)
             (setTimeout (\<lfloor>fl (randoms w (rpos w) * 1950)\<rfloor> + 50) w)"
    and "prop_of ''event_type'' (new_events w w' ! 0) = Some (JStr ''payment_processing'')"
    and "prop_of ''trace_id'' (new_events w w' ! 0) = map_option JStr (traceId req)"
    and "prop_of ''transaction_id'' (new_events w w' ! 0) = map_option JStr (transactionId req)"
    and "prop_of ''event_type'' (new_events w w' ! 1) =
           Some (JStr (if st then ''payment_timeout'' else if sv then ''payment_validation_error''
                       else if sf then ''payment_failure'' else ''payment_success''))"
    and "prop_of ''processing_time'' (new_events w w' ! 1) =
           Some (JNum (real_of_int (\<lfloor>fl (randoms w (rpos w) * 1950)\<rfloor> + 50)))"
    and "prop_of ''trace_id'' (new_events w w' ! 1) = map_option JStr (traceId req)"
    and "prop_of ''transaction_id'' (new_events w w' ! 1) = map_option JStr (transactionId req)"
    and "lvl (new_events w w' ! 1) = (if st \<or> sv \<or> sf then LError else LInfo)"
    and "prop_of ''error'' (new_events w w' ! 1) =
         (if st then Some (JStr ''Payment gateway timeout'')
          else if sv then Some (JStr (if randoms w (rpos w + 4) < 0.5 then ''Invalid card details''
                                      else ''Insufficient funds''))
          else if sf then Some (JStr ''Payment processor error'')
          else None)"
proof -
  define pt where "pt = \<lfloor>fl (randoms w (rpos w) * 1950)\<rfloor> + 50"
  define e1 where "e1 =
     \<lparr>lvl = LInfo, logged_at = clock w,
      props = log_head req ''Processing payment'' @
              [(''payment_id'', JStr (''pmt_'' @ accounts w (apos w))),
               (''transaction_type'', JStr ''payment'')] @
              jprop ''amount'' (req_body req ''amount'') @
              jprop ''currency'' (req_body req ''currency'') @
              jprop ''customer_id'' (req_body req ''customerId'') @
              [(''estimated_processing_time'', JNum (real_of_int pt)),
               (''event_type'', JStr ''payment_processing'')]\<rparr>"
  define w6 where "w6 = setTimeout pt
          (logger_info (props e1) (w\<lparr>apos := apos w + 1, rpos := rpos w + 4\<rparr>))"
  have pp: "post_payments req r w =
     payment_callback req r (''pmt_'' @ accounts w (apos w)) pt st sv sf
       (req_body req ''amount'') (req_body req ''currency'') (req_body req ''customerId'') w6"
    unfolding post_payments_valid [OF valid] w6_def e1_def pt_def st_def sv_def sf_def
    by simp
  have w6: "logged w6 = logged w @ [e1]" "clock w6 = clock w + pt"
           "randoms w6 (rpos w6) = randoms w (rpos w + 4)"
    by (simp_all add: w6_def setTimeout_fields logger_info_fields e1_def)
  have ce: "completed_event req r' w6 = completed_event req r' (setTimeout pt w)" for r'
    by (rule completed_event_clock) (simp add: w6 setTimeout_fields)
  from payment_callback_logged [of req r "''pmt_'' @ accounts w (apos w)" pt st sv sf
      "req_body req ''amount''" "req_body req ''currency''" "req_body req ''customerId''" w6]
  obtain e2 where
    l: "logged w' = logged w6 @ [e2] @
          completed_event req
            (r\<lparr>statusCode := if st then 504 else if sv then 400 else if sf then 500 else 200\<rparr>) w6"
    and p: "prop_of ''event_type'' e2 =
         Some (JStr (if st then ''payment_timeout'' else if sv then ''payment_validation_error''
                     else if sf then ''payment_failure'' else ''payment_success''))
       \<and> prop_of ''processing_time'' e2 = Some (JNum (real_of_int pt))
       \<and> prop_of ''trace_id'' e2 = map_option JStr (traceId req)
       \<and> prop_of ''transaction_id'' e2 = map_option JStr (transactionId req)
       \<and> lvl e2 = (if st \<or> sv \<or> sf then LError else LInfo)
       \<and> prop_of ''error'' e2 =
         (if st then Some (JStr ''Payment gateway timeout'')
          else if sv then Some (JStr (if randoms w6 (rpos w6) < 0.5 then ''Invalid card details''
                                      else ''Insufficient funds''))
          else if sf then Some (JStr ''Payment processor error'')
          else None)"
    unfolding w'_def pp by blast
  have "logged w' = logged w @ e1 # e2 #
          completed_event req
            (r\<lparr>statusCode := if st then 504 else if sv then 400 else if sf then 500 else 200\<rparr>)
            (setTimeout pt w)"
    using l by (simp add: w6 ce)
  from new_events_eq [OF this] have n: "new_events w w' = e1 # e2 #
          completed_event req
            (r\<lparr>statusCode := if st then 504 else if sv then 400 else if sf then 500 else 200\<rparr>)
            (setTimeout pt w)" .
  then have i: "new_events w w' ! 0 = e1" "new_events w w' ! 1 = e2"
    by simp_all
  have p1: "prop_of ''event_type'' e1 = Some (JStr ''payment_processing'')"
       "prop_of ''trace_id'' e1 = map_option JStr (traceId req)"
       "prop_of ''transaction_id'' e1 = map_option JStr (transactionId req)"
    by (simp_all add: e1_def prop_of_def lookup_log_head lookup_jprop_append)
  show "new_events w w' =
           (new_events w w' ! 0) # (new_events w w' ! 1) #
           completed_event req
             (r\<lparr>statusCode := if st then 504 else if sv then 400 else if sf then 500 else 200\<rparr>)
             (setTimeout (\<lfloor>fl (randoms w (rpos w) * 1950)\<rfloor> + 50) w)"
    unfolding i using n by (simp add: pt_def)
  show "prop_of ''event_type'' (new_events w w' ! 0) = Some (JStr ''payment_processing'')"
    and "prop_of ''trace_id'' (new_events w w' ! 0) = map_option JStr (traceId req)"
    and "prop_of ''transaction_id'' (new_events w w' ! 0) = map_option JStr (transactionId req)"
    unfolding i using p1 by simp_all
  show "prop_of ''event_type'' (new_events w w' ! 1) =
           Some (JStr (if st then ''payment_timeout'' else if sv then ''payment_validation_error''
                       else if sf then ''payment_failure'' else ''payment_success''))"
    and "prop_of ''processing_time'' (new_events w w' ! 1) =
           Some (JNum (real_of_int (\<lfloor>fl (randoms w (rpos w) * 1950)\<rfloor> + 50)))"
    and "prop_of ''trace_id'' (new_events w w' ! 1) = map_option JStr (traceId req)"
    and "prop_of ''transaction_id'' (new_events w w' ! 1) = map_option JStr (transactionId req)"
    and "lvl (new_events w w' ! 1) = (if st \<or> sv \<or> sf then LError else LInfo)"
    and "prop_of ''error'' (new_events w w' ! 1) =
         (if st then Some (JStr ''Payment gateway timeout'')
          else if sv then Some (JStr (if randoms w (rpos w + 4) < 0.5 then ''Invalid card details''
                                      else ''Insufficient funds''))
          else if sf then Some (JStr ''Payment processor error'')
          else None)"
    unfolding i using p by (simp_all add: w6 pt_def)
qed

lemma post_payments_valid_fields:
  assumes "truthy (req_body req ''amount'')" "truthy (req_body req ''currency'')"
          "truthy (req_body req ''customerId'')"
  shows "sent_at (fst (post_payments req r w)) =
           Some (clock w + (\<lfloor>fl (randoms w (rpos w) * 1950)\<rfloor> + 50))"
    and "body_prop ''error'' (fst (post_payments req r w)) =
         (if randoms w (rpos w + 2) < 0.05 then Some (JStr ''Payment gateway timeout'')
          else if randoms w (rpos w + 3) < 0.1
               then Some (JStr (if randoms w (rpos w + 4) < 0.5 then ''Invalid card details''
                                else ''Insufficient funds''))
          else if randoms w (rpos w + 1) < 0.2 then Some (JStr ''Payment processor error'')
          else None)"
    and "rpos (snd (post_payments req r w)) =
           rpos w + (if \<not> randoms w (rpos w + 2) < 0.05 \<and> randoms w (rpos w + 3) < 0.1
                     then 5 else 4)"
  by (simp_all add: post_payments_valid [OF assms] payment_callback_sent_at
      payment_callback_body_error payment_callback_rpos setTimeout_fields logger_info_fields)

lemma completed_event_types:
  "map (prop_of ''event_type'') (completed_event req r w) =
     (if end_start r = None then [] else [Some (JStr ''response'')])"
  using completed_event_cases [of req r w] by auto

lemma post_payments_valid_event_types:
  assumes "truthy (req_body req ''amount'')" "truthy (req_body req ''currency'')"
          "truthy (req_body req ''customerId'')"
  shows "map (prop_of ''event_type'') (new_events w (snd (post_payments req r w))) =
         [Some (JStr ''payment_processing''),
          Some (JStr (if randoms w (rpos w + 2) < 0.05 then ''payment_timeout''
                      else if randoms w (rpos w + 3) < 0.1 then ''payment_validation_error''
                      else if randoms w (rpos w + 1) < 0.2 then ''payment_failure''
                      else ''payment_success''))] @
         (if end_start r = None then [] else [Some (JStr ''response'')])"
proof -
  note e = post_payments_valid_events [OF assms, where r = r and w = w]
  let ?n = "new_events w (snd (post_payments req r w))"
  have "map (prop_of ''event_type'') ?n =
        prop_of ''event_type'' (?n ! 0) # prop_of ''event_type'' (?n ! 1) #
        (if end_start r = None then [] else [Some (JStr ''response'')])"
    by (subst e(1)) (simp add: completed_event_types)
  then show ?thesis
    by (simp only: e(2) e(5) append_Cons append_Nil)
qed

lemma valid_payment_truthy:
  "truthy (req_body (payment_request valid_payment) ''amount'')"
  "truthy (req_body (payment_request valid_payment) ''currency'')"
  "truthy (req_body (payment_request valid_payment) ''customerId'')"
  by (simp_all add: payment_request_def request_with_def valid_payment_def)

lemma world_with_fields:
  "clock (world_with ds) = 1000"
  "rpos (world_with ds) = 0"
  "apos (world_with ds) = 0"
  "upos (world_with ds) = 0"
  "logged (world_with ds) = []"
  "randoms (world_with ds) i = (if i < length ds then ds ! i else 0)"
  by (simp_all add: world_with_def)

text \<open>
  Claim C1, as amended. A payment request passes the handler's validation when \<open>amount\<close>,
  \<open>currency\<close> and \<open>customerId\<close> are all truthy: present, and not \<open>null\<close>, \<open>false\<close>, zero
  or the empty string. For such a request the status of the answer is decided by three
  draws tested in the fixed order timeout (below 0.05, status 504), validation error
  (below 0.1, status 400), processor failure (below 0.2, status 500), and success (status
  200) when none is below its threshold. The handler logs the record of the attempt and
  exactly one record of an outcome, the one of the branch taken. Counted over all triples
  of draws on a grid of \<open>1000 m\<close> points, the four outcomes have the shares 50, 95, 171 and
  684 in a thousand.
\<close>

theorem payment_outcome_priority:
  assumes "truthy (req_body req ''amount'')" "truthy (req_body req ''currency'')"
          "truthy (req_body req ''customerId'')" "0 < m"
  shows "statusCode (fst (post_payments req r w)) =
           (if randoms w (rpos w + 2) < 0.05 then 504
            else if randoms w (rpos w + 3) < 0.1 then 400
            else if randoms w (rpos w + 1) < 0.2 then 500 else 200)
       \<and> map (prop_of ''event_type'') (new_events w (snd (post_payments req r w))) =
           [Some (JStr ''payment_processing''),
            Some (JStr (if randoms w (rpos w + 2) < 0.05 then ''payment_timeout''
                        else if randoms w (rpos w + 3) < 0.1 then ''payment_validation_error''
                        else if randoms w (rpos w + 1) < 0.2 then ''payment_failure''
                        else ''payment_success''))] @
           (if end_start r = None then [] else [Some (JStr ''response'')])
       \<and> 1000 * outcome_count (1000 * m) req r w 504 = 50 * (1000 * m) ^ 3
       \<and> 1000 * outcome_count (1000 * m) req r w 400 = 95 * (1000 * m) ^ 3
       \<and> 1000 * outcome_count (1000 * m) req r w 500 = 171 * (1000 * m) ^ 3
       \<and> 1000 * outcome_count (1000 * m) req r w 200 = 684 * (1000 * m) ^ 3"
proof -
  note c = outcome_counts [OF assms, where r = r and w = w]
  have "1000 * outcome_count (1000 * m) req r w 504 = 50 * (1000 * m) ^ 3"
    unfolding c by (simp add: power3_eq_cube)
  moreover have "1000 * outcome_count (1000 * m) req r w 400 = 95 * (1000 * m) ^ 3"
    unfolding c by (simp add: power3_eq_cube)
  moreover have "1000 * outcome_count (1000 * m) req r w 500 = 171 * (1000 * m) ^ 3"
    unfolding c by (simp add: power3_eq_cube)
  moreover have "1000 * outcome_count (1000 * m) req r w 200 = 684 * (1000 * m) ^ 3"
    unfolding c by (simp add: power3_eq_cube)
  ultimately show ?thesis
    using post_payments_valid_status [OF assms(1-3), where r = r and w = w]
          post_payments_valid_event_types [OF assms(1-3), where r = r and w = w]
    by (simp only: simp_thms)
qed

theorem payment_outcome_priority_witness:
  "truthy (req_body (payment_request valid_payment) ''amount'')
   \<and> truthy (req_body (payment_request valid_payment) ''currency'')
   \<and> truthy (req_body (payment_request valid_payment) ''customerId'')
   \<and> statusCode (fst (post_payments (payment_request valid_payment) new_res
         (world_with [1/2, 1/10, 9/10, 9/10]))) = 500
   \<and> statusCode (fst (post_payments (payment_request valid_payment) new_res
         (world_with [1/2, 1/10, 1/100, 1/100]))) = 504
   \<and> 1000 * outcome_count 1000 (payment_request valid_payment) new_res
         (world_with [1/2, 1/10, 9/10, 9/10]) 200 = 684 * 1000 ^ 3"
  using payment_outcome_priority [OF valid_payment_truthy, where m = 1 and r = new_res and w = "world_with [1/2, 1/10, 9/10, 9/10]"]
        payment_outcome_priority [OF valid_payment_truthy, where m = 1 and r = new_res and w = "world_with [1/2, 1/10, 1/100, 1/100]"]
        valid_payment_truthy
  by (simp add: world_with_fields)

theorem payment_outcome_counterexample:
  "req_body (payment_request empty_currency_payment) ''amount'' = Some (JNum 10)
   \<and> req_body (payment_request empty_currency_payment) ''currency'' = Some (JStr [])
   \<and> req_body (payment_request empty_currency_payment) ''customerId'' = Some (JStr ''c1'')
   \<and> statusCode (fst (post_payments (payment_request empty_currency_payment) new_res
         (world_with [1/2, 9/10, 9/10, 9/10]))) = 400
   \<and> rpos (snd (post_payments (payment_request empty_currency_payment) new_res
         (world_with [1/2, 9/10, 9/10, 9/10]))) = 0
   \<and> body_prop ''error'' (fst (post_payments (payment_request empty_currency_payment) new_res
         (world_with [1/2, 9/10, 9/10, 9/10]))) = Some (JStr ''Missing required fields for payment'')"
proof -
  have m: "\<not> truthy (req_body (payment_request empty_currency_payment) ''amount'')
         \<or> \<not> truthy (req_body (payment_request empty_currency_payment) ''currency'')
         \<or> \<not> truthy (req_body (payment_request empty_currency_payment) ''customerId'')"
    by (simp add: payment_request_def request_with_def empty_currency_payment_def)
  show ?thesis
    unfolding post_payments_missing [OF m]
    by (simp add: res_json_fields res_status_def logger_error_fields body_prop_def
        world_with_fields payment_request_def request_with_def empty_currency_payment_def)
qed

subsection \<open>A refund request\<close>

lemma refund_callback_status:
  "statusCode (fst (refund_callback req r rid pt sf pid a w)) = (if sf then 500 else 200)"
  by (simp add: refund_callback_def Let_def res_json_fields res_status_def)

lemma refund_callback_sent_at:
  "sent_at (fst (refund_callback req r rid pt sf pid a w)) = Some (clock w)"
  by (simp add: refund_callback_def Let_def res_json_fields sent_at_def
      logger_info_fields logger_error_fields)

lemma refund_callback_logged:
  "\<exists>e. logged (snd (refund_callback req r rid pt sf pid a w)) =
          logged w @ [e] @
          completed_event req (r\<lparr>statusCode := if sf then 500 else 200\<rparr>) w
     \<and> prop_of ''event_type'' e = Some (JStr (if sf then ''refund_failure'' else ''refund_success''))
     \<and> prop_of ''processing_time'' e = Some (JNum (real_of_int pt))
     \<and> prop_of ''trace_id'' e = map_option JStr (traceId req)
     \<and> prop_of ''transaction_id'' e = map_option JStr (transactionId req)
     \<and> lvl e = (if sf then LError else LInfo)"
  by (simp add: refund_callback_def Let_def res_json_logged res_status_def
      logger_info_fields logger_error_fields prop_of_def lookup_log_head
      lookup_jprop_append completed_event_after)

lemma post_refunds_valid:
  assumes "truthy (req_body req ''paymentId'')" "truthy (req_body req ''amount'')"
  shows "post_refunds req r w =
     refund_callback req r (''ref_'' @ accounts w (apos w))
       (\<lfloor>fl (randoms w (rpos w) * 1500)\<rfloor> + 100)
       (randoms w (rpos w + 1) < fl 0.15)
       (req_body req ''paymentId'') (req_body req ''amount'')
       (setTimeout (\<lfloor>fl (randoms w (rpos w) * 1500)\<rfloor> + 100)
          ((logger_info
             (log_head req ''Processing refund'' @
              [(''refund_id'', JStr (''ref_'' @ accounts w (apos w)))] @
              jprop ''payment_id'' (req_body req ''paymentId'') @
              [(''transaction_type'', JStr ''refund'')] @
              jprop ''amount'' (req_body req ''amount'') @
              [(''reason'', or_else (req_body req ''reason'') (JStr ''Not specified'')),
               (''event_type'', JStr ''refund_processing'')])
             (w\<lparr>apos := apos w + 1, rpos := rpos w + 1\<rparr>))\<lparr>rpos := rpos w + 2\<rparr>))"
  using assms
  by (simp add: post_refunds_def Let_def split_def Math_random_def faker_finance_account_def
      logger_info_def)

lemma post_refunds_valid_events:
  fixes req r w
  defines "w' \<equiv> snd (post_refunds req r w)"
  defines "sf \<equiv> randoms w (rpos w + 1) < fl 0.15"
  assumes valid: "truthy (req_body req ''paymentId'')" "truthy (req_body req ''amount'')"
  shows "new_events w w' =
           (new_events w w' ! 0) # (new_events w w' ! 1) #
           completed_event req (r\<lparr>statusCode := if sf then 500 else 200\<rparr>)
             (setTimeout (\<lfloor>fl (randoms w (rpos w) * 1500)\<rfloor> + 100) w)"
    and "prop_of ''event_type'' (new_events w w' ! 0) = Some (JStr ''refund_processing'')"
    and "prop_of ''trace_id'' (new_events w w' ! 0) = map_option JStr (traceId req)"
    and "prop_of ''transaction_id'' (new_events w w' ! 0) = map_option JStr (transactionId req)"
    and "prop_of ''event_type'' (new_events w w' ! 1) =
           Some (JStr (if sf then ''refund_failure'' else ''refund_success''))"
    and "prop_of ''processing_time'' (new_events w w' ! 1) =
           Some (JNum (real_of_int (\<lfloor>fl (randoms w (rpos w) * 1500)\<rfloor> + 100)))"
    and "prop_of ''trace_id'' (new_events w w' ! 1) = map_option JStr (traceId req)"
    and "prop_of ''transaction_id'' (new_events w w' ! 1) = map_option JStr (transactionId req)"
    and "lvl (new_events w w' ! 1) = (if sf then LError else LInfo)"
proof -
  define pt where "pt = \<lfloor>fl (randoms w (rpos w) * 1500)\<rfloor> + 100"
  define e1 where "e1 =
     \<lparr>lvl = LInfo, logged_at = clock w,
      props = log_head req ''Processing refund'' @
              [(''refund_id'', JStr (''ref_'' @ accounts w (apos w)))] @
              jprop ''payment_id'' (req_body req ''paymentId'') @
              [(''transaction_type'', JStr ''refund'')] @
              jprop ''amount'' (req_body req ''amount'') @
              [(''reason'', or_else (req_body req ''reason'') (JStr ''Not specified'')),
               (''event_type'', JStr ''refund_processing'')]\<rparr>"
  define w5 where "w5 = setTimeout pt
          ((logger_info (props e1) (w\<lparr>apos := apos w + 1, rpos := rpos w + 1\<rparr>))
             \<lparr>rpos := rpos w + 2\<rparr>)"
  have pp: "post_refunds req r w =
     refund_callback req r (''ref_'' @ accounts w (apos w)) pt sf
       (req_body req ''paymentId'') (req_body req ''amount'') w5"
    unfolding post_refunds_valid [OF valid] w5_def e1_def pt_def sf_def
    by simp
  have w5: "logged w5 = logged w @ [e1]" "clock w5 = clock w + pt"
    by (simp_all add: w5_def setTimeout_fields logger_info_fields e1_def)
  have ce: "completed_event req r' w5 = completed_event req r' (setTimeout pt w)" for r'
    by (rule completed_event_clock) (simp add: w5 setTimeout_fields)
  from refund_callback_logged [of req r "''ref_'' @ accounts w (apos w)" pt sf
      "req_body req ''paymentId''" "req_body req ''amount''" w5]
  obtain e2 where
    l: "logged w' = logged w5 @ [e2] @
          completed_event req (r\<lparr>statusCode := if sf then 500 else 200\<rparr>) w5"
    and p: "prop_of ''event_type'' e2 =
              Some (JStr (if sf then ''refund_failure'' else ''refund_success''))
       \<and> prop_of ''processing_time'' e2 = Some (JNum (real_of_int pt))
       \<and> prop_of ''trace_id'' e2 = map_option JStr (traceId req)
       \<and> prop_of ''transaction_id'' e2 = map_option JStr (transactionId req)
       \<and> lvl e2 = (if sf then LError else LInfo)"
    unfolding w'_def pp by blast
  have "logged w' = logged w @ e1 # e2 #
          completed_event req (r\<lparr>statusCode := if sf then 500 else 200\<rparr>) (setTimeout pt w)"
    using l by (simp add: w5 ce)
  from new_events_eq [OF this] have n: "new_events w w' = e1 # e2 #
          completed_event req (r\<lparr>statusCode := if sf then 500 else 200\<rparr>) (setTimeout pt w)" .
  then have i: "new_events w w' ! 0 = e1" "new_events w w' ! 1 = e2"
    by simp_all
  have p1: "prop_of ''event_type'' e1 = Some (JStr ''refund_processing'')"
       "prop_of ''trace_id'' e1 = map_option JStr (traceId req)"
       "prop_of ''transaction_id'' e1 = map_option JStr (transactionId req)"
    by (simp_all add: e1_def prop_of_def lookup_log_head lookup_jprop_append)
  show "new_events w w' =
           (new_events w w' ! 0) # (new_events w w' ! 1) #
           completed_event req (r\<lparr>statusCode := if sf then 500 else 200\<rparr>)
             (setTimeout (\<lfloor>fl (randoms w (rpos w) * 1500)\<rfloor> + 100) w)"
    unfolding i using n by (simp add: pt_def)
  show "prop_of ''event_type'' (new_events w w' ! 0) = Some (JStr ''refund_processing'')"
    and "prop_of ''trace_id'' (new_events w w' ! 0) = map_option JStr (traceId req)"
    and "prop_of ''transaction_id'' (new_events w w' ! 0) = map_option JStr (transactionId req)"
    unfolding i using p1 by simp_all
  show "prop_of ''event_type'' (new_events w w' ! 1) =
           Some (JStr (if sf then ''refund_failure'' else ''refund_success''))"
    and "prop_of ''processing_time'' (new_events w w' ! 1) =
           Some (JNum (real_of_int (\<lfloor>fl (randoms w (rpos w) * 1500)\<rfloor> + 100)))"
    and "prop_of ''trace_id'' (new_events w w' ! 1) = map_option JStr (traceId req)"
    and "prop_of ''transaction_id'' (new_events w w' ! 1) = map_option JStr (transactionId req)"
    and "lvl (new_events w w' ! 1) = (if sf then LError else LInfo)"
    unfolding i using p by (simp_all add: pt_def)
qed

lemma post_refunds_valid_fields:
  assumes "truthy (req_body req ''paymentId'')" "truthy (req_body req ''amount'')"
  shows "sent_at (fst (post_refunds req r w)) =
           Some (clock w + (\<lfloor>fl (randoms w (rpos w) * 1500)\<rfloor> + 100))"
    and "statusCode (fst (post_refunds req r w)) =
           (if randoms w (rpos w + 1) < fl 0.15 then 500 else 200)"
  by (simp_all add: post_refunds_valid [OF assms] refund_callback_sent_at
      refund_callback_status setTimeout_fields logger_info_fields)

subsection \<open>The simulated delay\<close>

lemma scaled_floor_bounds:
  fixes d :: real
  assumes "0 \<le> d" "d < 1" "0 < n"
  shows "0 \<le> \<lfloor>d * real n\<rfloor>" and "\<lfloor>d * real n\<rfloor> \<le> int n - 1"
proof -
  from assms show "0 \<le> \<lfloor>d * real n\<rfloor>"
    by simp
  from assms have "d * real n < real n"
    by simp
  then have "\<lfloor>d * real n\<rfloor> < int n"
    by (simp add: floor_less_iff)
  then show "\<lfloor>d * real n\<rfloor> \<le> int n - 1"
    by simp
qed

lemma scaled_floor_eq:
  fixes d :: real
  assumes "0 < n"
  shows "(\<lfloor>d * real n\<rfloor> + lo = k) =
         (real_of_int (k - lo) / real n \<le> d \<and> d < real_of_int (k - lo + 1) / real n)"
proof -
  have "(\<lfloor>d * real n\<rfloor> + lo = k) = (\<lfloor>d * real n\<rfloor> = k - lo)"
    by auto
  also have "\<dots> = (real_of_int (k - lo) \<le> d * real n \<and> d * real n < real_of_int (k - lo) + 1)"
    by (rule floor_eq_iff)
  also have "\<dots> = (real_of_int (k - lo) / real n \<le> d \<and> d < real_of_int (k - lo + 1) / real n)"
    using assms by (simp add: divide_le_eq less_divide_eq)
  finally show ?thesis .
qed

lemma scaled_delay:
  fixes d :: real and n :: nat
  assumes "0 \<le> d" "d \<le> 1 - 1 / 2 ^ 53" "0 < n" "n < 2047"
  shows "0 \<le> \<lfloor>fl (d * real n)\<rfloor>"
    and "\<lfloor>fl (d * real n)\<rfloor> \<le> int n - 1"
    and "\<lfloor>d * real n\<rfloor> \<le> \<lfloor>fl (d * real n)\<rfloor>"
    and "\<lfloor>fl (d * real n)\<rfloor> \<le> \<lfloor>d * real n + 1 / 2 ^ 43\<rfloor>"
proof -
  have x0: "0 \<le> d * real n"
    using assms(1) by simp
  have "d * real n \<le> 1 * real n"
    using assms(2) by (intro mult_right_mono) simp_all
  with assms(4) have x1: "d * real n < 2047"
    by simp
  from floor_fl [OF x0 x1]
  show f: "\<lfloor>d * real n\<rfloor> \<le> \<lfloor>fl (d * real n)\<rfloor>"
    and "\<lfloor>fl (d * real n)\<rfloor> \<le> \<lfloor>d * real n + 1 / 2 ^ 43\<rfloor>"
    by simp_all
  from x0 have "0 \<le> \<lfloor>d * real n\<rfloor>"
    by simp
  with f show "0 \<le> \<lfloor>fl (d * real n)\<rfloor>"
    by linarith
  from assms(4) have "n < 2 ^ 52"
    by simp
  from fl_scaled_less [OF assms(1,2,3) this] have "fl (d * real n) < of_int (int n)"
    by simp
  then have "\<lfloor>fl (d * real n)\<rfloor> < int n"
    by (simp only: floor_less_iff)
  then show "\<lfloor>fl (d * real n)\<rfloor> \<le> int n - 1"
    by simp
qed

lemma valid_refund_truthy:
  "truthy (req_body (refund_request valid_refund) ''paymentId'')"
  "truthy (req_body (refund_request valid_refund) ''amount'')"
  by (simp_all add: refund_request_def request_with_def valid_refund_def)

text \<open>
  Claim C9, as amended. For a payment request that passes validation the delay is
  \<open>Math.floor(d * 1950) + 50\<close> for the first draw \<open>d\<close>, the product being rounded to a
  double before the floor is taken: a whole number of milliseconds from 50 to 1999, never
  2000. It is \<open>floor(d * 1950) + 50\<close> of the exact product, or one more when the exact
  product is less than \<open>2^-43\<close> below a whole number; so each value is produced by the
  draws of an interval of length \<open>1 / 1950\<close> whose ends the rounding moves by less than
  \<open>2^-53\<close>, and the values are equally likely up to that. For a refund request that passes
  validation the delay is \<open>Math.floor(d * 1500) + 100\<close>, from 100 to 1599 and never 1600,
  in the same way. In both cases the response is sent when that delay has passed since
  the request arrived, and the record of the outcome carries the delay as its property
  \<open>processing_time\<close>.
\<close>

theorem processing_delay_range:
  fixes req q :: request and r :: res and w :: world
  defines "d \<equiv> randoms w (rpos w)"
  defines "pt \<equiv> \<lfloor>fl (d * 1950)\<rfloor> + 50"
  defines "rt \<equiv> \<lfloor>fl (d * 1500)\<rfloor> + 100"
  assumes pay: "truthy (req_body req ''amount'')" "truthy (req_body req ''currency'')"
          "truthy (req_body req ''customerId'')"
      and refund: "truthy (req_body q ''paymentId'')" "truthy (req_body q ''amount'')"
      and draw: "0 \<le> d" "d \<le> 1 - 1 / 2 ^ 53"
  shows "50 \<le> pt \<and> pt \<le> 1999
       \<and> \<lfloor>d * 1950\<rfloor> + 50 \<le> pt \<and> pt \<le> \<lfloor>d * 1950 + 1 / 2 ^ 43\<rfloor> + 50
       \<and> sent_at (fst (post_payments req r w)) = Some (clock w + pt)
       \<and> prop_of ''processing_time'' (new_events w (snd (post_payments req r w)) ! 1) =
           Some (JNum (real_of_int pt))
       \<and> 100 \<le> rt \<and> rt \<le> 1599
       \<and> \<lfloor>d * 1500\<rfloor> + 100 \<le> rt \<and> rt \<le> \<lfloor>d * 1500 + 1 / 2 ^ 43\<rfloor> + 100
       \<and> sent_at (fst (post_refunds q r w)) = Some (clock w + rt)
       \<and> prop_of ''processing_time'' (new_events w (snd (post_refunds q r w)) ! 1) =
           Some (JNum (real_of_int rt))"
proof -
  have p: "50 \<le> pt" "pt \<le> 1999" "\<lfloor>d * 1950\<rfloor> + 50 \<le> pt" "pt \<le> \<lfloor>d * 1950 + 1 / 2 ^ 43\<rfloor> + 50"
    using scaled_delay [OF draw, of 1950] by (simp_all add: pt_def)
  have q: "100 \<le> rt" "rt \<le> 1599" "\<lfloor>d * 1500\<rfloor> + 100 \<le> rt" "rt \<le> \<lfloor>d * 1500 + 1 / 2 ^ 43\<rfloor> + 100"
    using scaled_delay [OF draw, of 1500] by (simp_all add: rt_def)
  have ps: "sent_at (fst (post_payments req r w)) = Some (clock w + pt)"
    unfolding pt_def d_def by (rule post_payments_valid_fields(1) [OF pay])
  have pe: "prop_of ''processing_time'' (new_events w (snd (post_payments req r w)) ! 1) =
           Some (JNum (real_of_int pt))"
    unfolding pt_def d_def by (rule post_payments_valid_events(6) [OF pay])
  have rs: "sent_at (fst (post_refunds q r w)) = Some (clock w + rt)"
    unfolding rt_def d_def by (rule post_refunds_valid_fields(1) [OF refund])
  have re: "prop_of ''processing_time'' (new_events w (snd (post_refunds q r w)) ! 1) =
           Some (JNum (real_of_int rt))"
    unfolding rt_def d_def by (rule post_refunds_valid_events(6) [OF refund])
  from p q ps pe rs re show ?thesis
    by blast
qed

theorem processing_delay_range_witness:
  "truthy (req_body (payment_request valid_payment) ''amount'')
   \<and> truthy (req_body (refund_request valid_refund) ''paymentId'')
   \<and> randoms (world_with [1/2]) (rpos (world_with [1/2])) = 1/2
   \<and> sent_at (fst (post_payments (payment_request valid_payment) new_res (world_with [1/2])))
       = Some 2025
   \<and> sent_at (fst (post_refunds (refund_request valid_refund) new_res (world_with [1/2])))
       = Some 1850"
proof -
  have f: "\<lfloor>975 + 1 / 2 ^ 43 :: real\<rfloor> = 975" "\<lfloor>750 + 1 / 2 ^ 43 :: real\<rfloor> = 750"
    by (simp_all add: floor_eq_iff)
  from processing_delay_range [OF valid_payment_truthy valid_refund_truthy,
          where r = new_res and w = "world_with [1/2]"]
        valid_payment_truthy valid_refund_truthy
  show ?thesis
    by (simp add: world_with_fields f floor_eq_iff)
qed

theorem processing_delay_counterexample:
  "\<not> (\<exists>d. 0 \<le> d \<and> d \<le> 1 - 1 / 2 ^ 53 \<and>
          sent_at (fst (post_payments (payment_request valid_payment) new_res (world_with [d])))
            = Some (clock (world_with [d]) + 2000))
   \<and> \<not> (\<exists>d. 0 \<le> d \<and> d \<le> 1 - 1 / 2 ^ 53 \<and>
          sent_at (fst (post_refunds (refund_request valid_refund) new_res (world_with [d])))
            = Some (clock (world_with [d]) + 1600))"
proof (intro conjI notI)
  assume "\<exists>d. 0 \<le> d \<and> d \<le> 1 - 1 / 2 ^ 53 \<and>
          sent_at (fst (post_payments (payment_request valid_payment) new_res (world_with [d])))
            = Some (clock (world_with [d]) + 2000)"
  then obtain d :: real where d: "0 \<le> d" "d \<le> 1 - 1 / 2 ^ 53"
    and s: "sent_at (fst (post_payments (payment_request valid_payment) new_res (world_with [d])))
            = Some (clock (world_with [d]) + 2000)"
    by blast
  from s have "\<lfloor>fl (d * 1950)\<rfloor> = 1950"
    by (simp add: post_payments_valid_fields(1) [OF valid_payment_truthy] world_with_fields)
  with scaled_delay(2) [OF d, of 1950] show False
    by simp
next
  assume "\<exists>d. 0 \<le> d \<and> d \<le> 1 - 1 / 2 ^ 53 \<and>
          sent_at (fst (post_refunds (refund_request valid_refund) new_res (world_with [d])))
            = Some (clock (world_with [d]) + 1600)"
  then obtain d :: real where d: "0 \<le> d" "d \<le> 1 - 1 / 2 ^ 53"
    and s: "sent_at (fst (post_refunds (refund_request valid_refund) new_res (world_with [d])))
            = Some (clock (world_with [d]) + 1600)"
    by blast
  from s have "\<lfloor>fl (d * 1500)\<rfloor> = 1500"
    by (simp add: post_refunds_valid_fields(1) [OF valid_refund_truthy] world_with_fields)
  with scaled_delay(2) [OF d, of 1500] show False
    by simp
qed

subsection \<open>The reason of a validation error\<close>

lemma with_draw_fields:
  "rpos (with_draw w k x) = rpos w"
  "clock (with_draw w k x) = clock w"
  "randoms (with_draw w k x) i = (if i = rpos w + k then x else randoms w i)"
  by (simp_all add: with_draw_def)

lemma half_grid:
  assumes "0 < m"
  shows "card {e \<in> grid (2 * m). e < 1 / 2} = m"
    and "card {e \<in> grid (2 * m). \<not> e < 1 / 2} = m"
proof -
  have h: "(1 / 2 :: real) = real m / real (2 * m)"
    using assms by simp
  show "card {e \<in> grid (2 * m). e < 1 / 2} = m"
    unfolding h using assms by (intro card_grid_below) simp_all
  show "card {e \<in> grid (2 * m). \<not> e < 1 / 2} = m"
    unfolding h using card_grid_not_below [of "2 * m" m] assms by simp
qed

text \<open>
  Claim C8, as amended. When the outcome selection of a payment takes the validation
  error branch, the status of the answer is 400 and the reason, in the property \<open>error\<close>
  of the body and of the logged record, is \<open>Invalid card details\<close> when the next draw is
  below 0.5 and \<open>Insufficient funds\<close> otherwise. On a grid of \<open>2 m\<close> draws each of the two
  strings is the reason for \<open>m\<close> of them.
\<close>

theorem validation_error_reason:
  fixes req :: request and r :: res and w :: world
  defines "reason \<equiv> (if randoms w (rpos w + 4) < 0.5 then ''Invalid card details''
                      else ''Insufficient funds'')"
  assumes valid: "truthy (req_body req ''amount'')" "truthy (req_body req ''currency'')"
          "truthy (req_body req ''customerId'')"
      and branch: "\<not> randoms w (rpos w + 2) < 0.05" "randoms w (rpos w + 3) < 0.1"
      and m: "0 < m"
  shows "statusCode (fst (post_payments req r w)) = 400
       \<and> body_prop ''error'' (fst (post_payments req r w)) = Some (JStr reason)
       \<and> prop_of ''event_type'' (new_events w (snd (post_payments req r w)) ! 1) =
           Some (JStr ''payment_validation_error'')
       \<and> prop_of ''error'' (new_events w (snd (post_payments req r w)) ! 1) = Some (JStr reason)
       \<and> card {e \<in> grid (2 * m).
                body_prop ''error'' (fst (post_payments req r (with_draw w 4 e))) =
                  Some (JStr ''Invalid card details'')} = m
       \<and> card {e \<in> grid (2 * m).
                body_prop ''error'' (fst (post_payments req r (with_draw w 4 e))) =
                  Some (JStr ''Insufficient funds'')} = m"
proof -
  have s: "statusCode (fst (post_payments req r w)) = 400"
    using branch by (simp add: post_payments_valid_status [OF valid])
  have b: "body_prop ''error'' (fst (post_payments req r w)) = Some (JStr reason)"
    using branch by (simp add: post_payments_valid_fields(2) [OF valid] reason_def)
  have t: "prop_of ''event_type'' (new_events w (snd (post_payments req r w)) ! 1) =
           Some (JStr ''payment_validation_error'')"
    using branch post_payments_valid_events(5) [OF valid, where r = r and w = w] by simp
  have e: "prop_of ''error'' (new_events w (snd (post_payments req r w)) ! 1) = Some (JStr reason)"
    using branch post_payments_valid_events(10) [OF valid, where r = r and w = w]
    by (simp add: reason_def)
  have be: "body_prop ''error'' (fst (post_payments req r (with_draw w 4 x))) =
            Some (JStr (if x < 1 / 2 then ''Invalid card details'' else ''Insufficient funds''))" for x
    using branch by (simp add: post_payments_valid_fields(2) [OF valid] with_draw_fields)
  have c1: "{e \<in> grid (2 * m).
                body_prop ''error'' (fst (post_payments req r (with_draw w 4 e))) =
                  Some (JStr ''Invalid card details'')} = {e \<in> grid (2 * m). e < 1 / 2}"
    by (auto simp: be)
  have c2: "{e \<in> grid (2 * m).
                body_prop ''error'' (fst (post_payments req r (with_draw w 4 e))) =
                  Some (JStr ''Insufficient funds'')} = {e \<in> grid (2 * m). \<not> e < 1 / 2}"
    by (auto simp: be)
  from s b t e show ?thesis
    unfolding c1 c2 half_grid [OF m] by simp
qed

theorem validation_error_reason_witness:
  "truthy (req_body (payment_request valid_payment) ''amount'')
   \<and> \<not> randoms (world_with [1/2, 9/10, 9/10, 1/20, 3/10]) (rpos (world_with [1/2, 9/10, 9/10, 1/20, 3/10]) + 2) < 0.05
   \<and> randoms (world_with [1/2, 9/10, 9/10, 1/20, 3/10]) (rpos (world_with [1/2, 9/10, 9/10, 1/20, 3/10]) + 3) < 0.1
   \<and> statusCode (fst (post_payments (payment_request valid_payment) new_res
         (world_with [1/2, 9/10, 9/10, 1/20, 3/10]))) = 400
   \<and> body_prop ''error'' (fst (post_payments (payment_request valid_payment) new_res
         (world_with [1/2, 9/10, 9/10, 1/20, 3/10]))) = Some (JStr ''Invalid card details'')"
  using validation_error_reason [OF valid_payment_truthy,
          where r = new_res and w = "world_with [1/2, 9/10, 9/10, 1/20, 3/10]" and m = 1]
        valid_payment_truthy
  by (simp add: world_with_fields)

theorem validation_error_reason_counterexample:
  "statusCode (fst (post_payments (payment_request valid_payment) new_res
         (world_with [1/2, 9/10, 9/10, 1/20, 3/10]))) = 400
   \<and> body_prop ''error'' (fst (post_payments (payment_request valid_payment) new_res
         (world_with [1/2, 9/10, 9/10, 1/20, 3/10]))) = Some (JStr ''Invalid card details'')
   \<and> body_prop ''error'' (fst (post_payments (payment_request valid_payment) new_res
         (world_with [1/2, 9/10, 9/10, 1/20, 3/10])))
       \<notin> {Some (JStr ''invalid_card_details''), Some (JStr ''insufficient_funds'')}
   \<and> prop_of ''error'' (new_events (world_with [1/2, 9/10, 9/10, 1/20, 3/10])
         (snd (post_payments (payment_request valid_payment) new_res
            (world_with [1/2, 9/10, 9/10, 1/20, 3/10]))) ! 1) = Some (JStr ''Invalid card details'')"
  using post_payments_valid_events(10) [OF valid_payment_truthy,
          where r = new_res and w = "world_with [1/2, 9/10, 9/10, 1/20, 3/10]"]
  by (simp add: post_payments_valid_status [OF valid_payment_truthy]
      post_payments_valid_fields(2) [OF valid_payment_truthy] world_with_fields)

subsection \<open>The request id middleware\<close>

lemma request_id_middleware_request:
  "req_method (fst (request_id_middleware req r w)) = req_method req"
  "req_path (fst (request_id_middleware req r w)) = req_path req"
  "req_body (fst (request_id_middleware req r w)) = req_body req"
  "traceId (fst (request_id_middleware req r w)) =
     Some (case req_headers req ''x-trace-id'' of
             None \<Rightarrow> uuids w (upos w)
           | Some h \<Rightarrow> if h \<noteq> [] then h else uuids w (upos w))"
  "transactionId (fst (request_id_middleware req r w)) =
     Some (case req_headers req ''x-trace-id'' of
             None \<Rightarrow> uuids w (upos w + 1)
           | Some h \<Rightarrow> if h \<noteq> [] then uuids w (upos w) else uuids w (upos w + 1))"
  by (simp_all add: request_id_middleware_def Let_def split_def uuidv4_def split: option.splits)

lemma request_id_middleware_res:
  "statusCode (fst (snd (request_id_middleware req r w))) = statusCode r"
  "end_start (fst (snd (request_id_middleware req r w))) = end_start r"
  "res_headers (fst (snd (request_id_middleware req r w))) ''x-trace-id'' =
     traceId (fst (request_id_middleware req r w))"
  "res_headers (fst (snd (request_id_middleware req r w))) ''x-transaction-id'' =
     transactionId (fst (request_id_middleware req r w))"
  by (simp_all add: request_id_middleware_def Let_def split_def uuidv4_def setHeader_def
      split: option.splits)

lemma request_id_middleware_world:
  "randoms (snd (snd (request_id_middleware req r w))) = randoms w"
  "rpos (snd (snd (request_id_middleware req r w))) = rpos w"
  "clock (snd (snd (request_id_middleware req r w))) = clock w"
  "apos (snd (snd (request_id_middleware req r w))) = apos w"
  "decodeURIComponent (snd (snd (request_id_middleware req r w))) = decodeURIComponent w"
  "upos (snd (snd (request_id_middleware req r w))) =
     upos w + (case req_headers req ''x-trace-id'' of
                 None \<Rightarrow> 2
               | Some h \<Rightarrow> if h \<noteq> [] then 1 else 2)"
  by (simp_all add: request_id_middleware_def Let_def split_def uuidv4_def logger_info_def
      split: option.splits)

lemma handle_routing:
  fixes req :: request and w :: world
  defines "req1 \<equiv> fst (request_id_middleware req new_res w)"
  defines "w1 \<equiv> snd (snd (request_id_middleware req new_res w))"
  defines "r2 \<equiv> response_time_middleware (fst (snd (request_id_middleware req new_res w))) w1"
  shows "handle sn req w =
     (case route_of (decodeURIComponent w) (req_method req) (req_path req) of
        Handler rt \<Rightarrow> dispatch sn rt req1 r2 w1
      | Allow methods \<Rightarrow> res_end req1 (JStr methods) r2 w1
      | NoRoute \<Rightarrow>
          finalhandler 404 ''Not Found'' (''Cannot '' @ req_method req @ '' '' @ req_path req)
            req1 r2 w1
      | BadParameter \<Rightarrow> finalhandler 400 ''Bad Request'' ''Bad Request'' req1 r2 w1)"
  unfolding req1_def w1_def r2_def
  by (simp add: handle_def split_def Let_def request_id_middleware_request
      request_id_middleware_world split: routing.splits)

lemma handle_dispatch:
  assumes "route_of (decodeURIComponent w) (req_method req) (req_path req) = Handler rt"
  shows "handle sn req w =
     dispatch sn rt (fst (request_id_middleware req new_res w))
       (response_time_middleware (fst (snd (request_id_middleware req new_res w)))
          (snd (snd (request_id_middleware req new_res w))))
       (snd (snd (request_id_middleware req new_res w)))"
  by (simp add: handle_routing assms)

lemma finalhandler_fields:
  "statusCode (fst (finalhandler code message page req r w)) = code"
  "sent (fst (finalhandler code message page req r w)) = Some (JStr page, clock w)"
  "res_headers (fst (finalhandler code message page req r w)) = res_headers r"
  "upos (snd (finalhandler code message page req r w)) = upos w"
  by (simp_all add: finalhandler_def res_end_fields)

subsection \<open>The routes\<close>

lemma by_method_handler:
  "(by_method registered rt m = Handler rt') =
     (rt' = rt \<and> (m = registered \<or> registered = ''GET'' \<and> m = ''HEAD''))"
  by (auto simp: by_method_def)

lemma route_of_get_payment:
  "(route_of decode m path = Handler (GetPayment paymentId)) =
     ((m = ''GET'' \<or> m = ''HEAD'') \<and>
      (\<exists>segment. path_parameter ''/api/payments/'' path = Some segment
                \<and> decode segment = Some paymentId))"
proof (cases "path_parameter ''/api/payments/'' path")
  case None
  then show ?thesis
    by (simp add: route_of_def by_method_handler)
next
  case (Some segment)
  then show ?thesis
    by (cases "decode segment") (auto simp: route_of_def by_method_handler)
qed

lemma path_parameter_segment:
  assumes "path_parameter prefix path = Some segment"
  shows "segment \<noteq> []" and "CHR ''/'' \<notin> set segment"
    and "map lower (take (length prefix) path) = map lower prefix"
    and "drop (length prefix) path = segment \<or> drop (length prefix) path = segment @ ''/''"
proof -
  define rest where "rest = drop (length prefix) path"
  define seg where "seg = (if rest \<noteq> [] \<and> last rest = CHR ''/'' then butlast rest else rest)"
  have pp: "path_parameter prefix path =
          (if map lower (take (length prefix) path) = map lower prefix
           then (if seg \<noteq> [] \<and> CHR ''/'' \<notin> set seg then Some seg else None)
           else None)"
    unfolding path_parameter_def Let_def rest_def [symmetric] seg_def [symmetric] ..
  from assms have p: "map lower (take (length prefix) path) = map lower prefix"
    unfolding pp by (simp split: if_splits)
  from assms have s: "seg \<noteq> []" "CHR ''/'' \<notin> set seg" "segment = seg"
    unfolding pp by (simp_all split: if_splits)
  from s show "segment \<noteq> []" "CHR ''/'' \<notin> set segment"
    by simp_all
  from p show "map lower (take (length prefix) path) = map lower prefix" .
  have "rest = seg \<or> rest = seg @ ''/''"
  proof (cases "rest \<noteq> [] \<and> last rest = CHR ''/''")
    case True
    then have n: "rest \<noteq> []" and l: "last rest = CHR ''/''"
      by simp_all
    from n have "butlast rest @ [last rest] = rest"
      by (rule append_butlast_last_id)
    then have "butlast rest @ ''/'' = rest"
      by (simp only: l)
    moreover from True have "seg = butlast rest"
      unfolding seg_def by (rule if_P)
    ultimately have "rest = seg @ ''/''"
      by simp
    then show ?thesis ..
  next
    case False
    then have "seg = rest"
      unfolding seg_def by (rule if_not_P)
    then have "rest = seg"
      by (rule sym)
    then show ?thesis ..
  qed
  then show "drop (length prefix) path = segment \<or> drop (length prefix) path = segment @ ''/''"
    by (simp only: rest_def s(3))
qed

lemma no_route_for_empty_id:
  "route_of decode ''GET'' ''/api/payments/'' = NoRoute"
  "route_of decode ''GET'' ''/api/payments'' = NoRoute"
  by (simp_all add: route_of_def path_parameter_def is_path_def lower_def by_method_def)

subsection \<open>A status lookup\<close>

lemma status_callback_fields:
  "statusCode (fst (status_callback req r pid st pt w)) = statusCode r"
  "body_prop ''payment_id'' (fst (status_callback req r pid st pt w)) = Some (JStr pid)"
  "body_prop ''status'' (fst (status_callback req r pid st pt w)) = map_option JStr st"
  "sent_at (fst (status_callback req r pid st pt w)) = Some (clock w)"
  by (cases st; simp add: status_callback_def Let_def res_json_fields body_prop_def sent_at_def
      logger_info_fields str_prop_def)+

lemma get_payment_callback:
  "get_payment pid req r w =
     status_callback req r pid
       (at_index statuses \<lfloor>randoms w (rpos w) * 4\<rfloor>)
       (\<lfloor>fl (randoms w (rpos w + 1) * 290)\<rfloor> + 10)
       (setTimeout (\<lfloor>fl (randoms w (rpos w + 1) * 290)\<rfloor> + 10)
          ((logger_info
              (log_head req ''Payment status lookup'' @
               [(''payment_id'', JStr pid),
                (''transaction_type'', JStr ''payment_lookup''),
                (''event_type'', JStr ''status_check'')]) w)\<lparr>rpos := rpos w + 2\<rparr>))"
  by (simp add: get_payment_def Let_def split_def Math_random_def logger_info_def statuses_def)

lemma get_payment_fields:
  "statusCode (fst (get_payment pid req r w)) = statusCode r"
  "body_prop ''payment_id'' (fst (get_payment pid req r w)) = Some (JStr pid)"
  "body_prop ''status'' (fst (get_payment pid req r w)) =
     map_option JStr (at_index statuses \<lfloor>randoms w (rpos w) * 4\<rfloor>)"
  "sent_at (fst (get_payment pid req r w)) =
     Some (clock w + (\<lfloor>fl (randoms w (rpos w + 1) * 290)\<rfloor> + 10))"
  by (simp_all add: get_payment_callback status_callback_fields setTimeout_fields
      logger_info_fields)

lemma handle_get_payment:
  assumes "route_of (decodeURIComponent w) (req_method req) (req_path req) = Handler (GetPayment pid)"
  shows "statusCode (fst (handle sn req w)) = 200"
    and "body_prop ''payment_id'' (fst (handle sn req w)) = Some (JStr pid)"
    and "body_prop ''status'' (fst (handle sn req w)) =
           map_option JStr (at_index statuses \<lfloor>randoms w (rpos w) * 4\<rfloor>)"
  by (simp_all add: handle_dispatch [OF assms] get_payment_fields request_id_middleware_world
      request_id_middleware_res response_time_middleware_def new_res_def)

lemma statuses_facts:
  "length statuses = 4" "distinct statuses"
  "set statuses = {''completed'', ''pending'', ''failed'', ''refunded''}"
  by (auto simp: statuses_def)

text \<open>
  Claim C6, as amended. The router calls the handler of \<open>GET /api/payments/:paymentId\<close>
  for a request whose path is \<open>/api/payments/\<close> followed by one segment that is not empty,
  holds no slash and can be decoded, with or without a slash after it; \<open>paymentId\<close> is the
  decoded segment (\<open>route_of_get_payment\<close>, \<open>path_parameter_segment\<close>). For every such
  request, whatever the id and whether or not it has the form of a payment id, the answer
  has status 200 and a body with that id and a status that is one of \<open>completed\<close>,
  \<open>pending\<close>, \<open>failed\<close> and \<open>refunded\<close>. The status is the entry of that list at
  \<open>floor(4 s)\<close> for the next draw \<open>s\<close>: entry \<open>k\<close> is chosen exactly by the draws of the
  quarter from \<open>k / 4\<close> to \<open>(k + 1) / 4\<close>, so the four are equally likely, and neither the
  id nor anything earlier in the world enters the choice. The handler has no failing
  branch. A request with an empty id does not reach the handler: it is answered 404.
\<close>

theorem status_lookup_uniform:
  fixes req :: request and w :: world
  defines "s \<equiv> randoms w (rpos w)"
  assumes route: "route_of (decodeURIComponent w) (req_method req) (req_path req)
                    = Handler (GetPayment paymentId)"
      and draw: "0 \<le> s" "s < 1"
  shows "statusCode (fst (handle sn req w)) = 200
       \<and> body_prop ''payment_id'' (fst (handle sn req w)) = Some (JStr paymentId)
       \<and> body_prop ''status'' (fst (handle sn req w)) = Some (JStr (statuses ! nat \<lfloor>s * 4\<rfloor>))
       \<and> statuses ! nat \<lfloor>s * 4\<rfloor> \<in> {''completed'', ''pending'', ''failed'', ''refunded''}
       \<and> (\<forall>k<4. (body_prop ''status'' (fst (handle sn req w)) = Some (JStr (statuses ! k)))
                  = (real k / 4 \<le> s \<and> s < (real k + 1) / 4))"
proof -
  from scaled_floor_bounds [OF draw, of 4] have i: "0 \<le> \<lfloor>s * 4\<rfloor>" "\<lfloor>s * 4\<rfloor> \<le> 3"
    by simp_all
  then have n: "nat \<lfloor>s * 4\<rfloor> < length statuses"
    unfolding statuses_facts by linarith
  have a: "at_index statuses \<lfloor>s * 4\<rfloor> = Some (statuses ! nat \<lfloor>s * 4\<rfloor>)"
    using i by (simp add: at_index_def statuses_facts)
  have b: "body_prop ''status'' (fst (handle sn req w)) = Some (JStr (statuses ! nat \<lfloor>s * 4\<rfloor>))"
    using handle_get_payment(3) [OF route, where sn = sn] a by (simp add: s_def)
  have m: "statuses ! nat \<lfloor>s * 4\<rfloor> \<in> {''completed'', ''pending'', ''failed'', ''refunded''}"
    using nth_mem [OF n] by (simp only: statuses_facts)
  have u: "(body_prop ''status'' (fst (handle sn req w)) = Some (JStr (statuses ! k)))
             = (real k / 4 \<le> s \<and> s < (real k + 1) / 4)" if k: "k < 4" for k
  proof -
    have "(statuses ! nat \<lfloor>s * 4\<rfloor> = statuses ! k) = (nat \<lfloor>s * 4\<rfloor> = k)"
      using n k by (simp add: nth_eq_iff_index_eq statuses_facts)
    also have "\<dots> = (\<lfloor>s * 4\<rfloor> = int k)"
      using i by auto
    also have "\<dots> = (real_of_int (int k) \<le> s * 4 \<and> s * 4 < real_of_int (int k) + 1)"
      by (rule floor_eq_iff)
    also have "\<dots> = (real k / 4 \<le> s \<and> s < (real k + 1) / 4)"
      by (simp add: divide_le_eq less_divide_eq)
    finally show ?thesis
      by (simp add: b)
  qed
  from handle_get_payment(1,2) [OF route, where sn = sn] b m u show ?thesis
    by blast
qed

lemma lookup_request_fields:
  "req_method (lookup_request pid) = ''GET''"
  "req_path (lookup_request pid) = ''/api/payments/'' @ pid"
  by (simp_all add: lookup_request_def request_with_def)

lemma lookup_request_route:
  "route_of (decodeURIComponent (world_with ds)) (req_method (lookup_request ''not-a-payment''))
     (req_path (lookup_request ''not-a-payment'')) = Handler (GetPayment ''not-a-payment'')"
  by (simp add: lookup_request_fields route_of_def path_parameter_def lower_def by_method_def
      world_with_def)

theorem status_lookup_uniform_witness:
  "route_of (decodeURIComponent (world_with [7/10])) ''GET'' ''/api/payments/not-a-payment''
     = Handler (GetPayment ''not-a-payment'')
   \<and> randoms (world_with [7/10]) (rpos (world_with [7/10])) = 7/10
   \<and> statusCode (fst (handle ''payment-processor'' (lookup_request ''not-a-payment'')
        (world_with [7/10]))) = 200
   \<and> body_prop ''payment_id''
        (fst (handle ''payment-processor'' (lookup_request ''not-a-payment'') (world_with [7/10])))
       = Some (JStr ''not-a-payment'')
   \<and> body_prop ''status''
        (fst (handle ''payment-processor'' (lookup_request ''not-a-payment'') (world_with [7/10])))
       = Some (JStr ''failed'')"
  using status_lookup_uniform [OF lookup_request_route,
          where ds1 = "[7/10]" and sn = "''payment-processor''"]
        lookup_request_route [of "[7/10]"]
  by (simp add: world_with_fields statuses_def lookup_request_fields)

theorem status_lookup_counterexample:
  "req_method (lookup_request []) = ''GET''
   \<and> req_path (lookup_request []) = ''/api/payments/''
   \<and> statusCode (fst (handle ''payment-processor'' (lookup_request []) (world_with [7/10]))) = 404
   \<and> body_prop ''status''
        (fst (handle ''payment-processor'' (lookup_request []) (world_with [7/10]))) = None"
  by (simp add: lookup_request_fields handle_routing no_route_for_empty_id finalhandler_fields
      body_prop_def)

subsection \<open>Every logged record carries the ids of its request\<close>

lemma grows_refl: "grows req w w"
  by (simp add: grows_def)

lemma grows_logger_info:
  assumes "traceId req \<noteq> None" "transactionId req \<noteq> None" "grows req w w1"
  shows "grows req w (logger_info (log_head req msg @ rest) w1)"
proof -
  from assms(3) obtain es where es: "logged w1 = logged w @ es" "list_all (carries_ids req) es"
    "upos w1 = upos w"
    by (auto simp: grows_def)
  have "carries_ids req \<lparr>lvl = LInfo, logged_at = clock w1, props = log_head req msg @ rest\<rparr>"
    using assms(1,2) by (simp add: carries_ids_def prop_of_def lookup_log_head)
  with es show ?thesis
    by (simp add: grows_def logger_info_fields)
qed

lemma grows_logger_error:
  assumes "traceId req \<noteq> None" "transactionId req \<noteq> None" "grows req w w1"
  shows "grows req w (logger_error (log_head req msg @ rest) w1)"
proof -
  from assms(3) obtain es where es: "logged w1 = logged w @ es" "list_all (carries_ids req) es"
    "upos w1 = upos w"
    by (auto simp: grows_def)
  have "carries_ids req \<lparr>lvl = LError, logged_at = clock w1, props = log_head req msg @ rest\<rparr>"
    using assms(1,2) by (simp add: carries_ids_def prop_of_def lookup_log_head)
  with es show ?thesis
    by (simp add: grows_def logger_error_fields)
qed

lemma grows_update:
  "grows req w w1 \<Longrightarrow> grows req w (setTimeout ms w1)"
  "grows req w w1 \<Longrightarrow> grows req w (w1\<lparr>rpos := n\<rparr>)"
  "grows req w w1 \<Longrightarrow> grows req w (w1\<lparr>apos := n\<rparr>)"
  by (simp_all add: grows_def setTimeout_def)

lemma grows_res_end:
  assumes "grows req w w1"
  shows "grows req w (snd (res_end req p r w1))"
proof -
  from assms obtain es where es: "logged w1 = logged w @ es" "list_all (carries_ids req) es"
    "upos w1 = upos w"
    by (auto simp: grows_def)
  from completed_event_cases [of req r w1] have "list_all (carries_ids req) (completed_event req r w1)"
    by (auto simp: carries_ids_def)
  with es show ?thesis
    by (simp add: grows_def res_end_logged res_end_fields)
qed

lemma grows_res_json:
  assumes "grows req w w1"
  shows "grows req w (snd (res_json req obj r w1))"
  unfolding res_json_def using assms by (rule grows_res_end)

lemmas grows_intros =
  grows_refl grows_logger_info grows_logger_error grows_update grows_res_json

lemma grows_payment_callback:
  assumes "traceId req \<noteq> None" "transactionId req \<noteq> None" "grows req w w1"
  shows "grows req w (snd (payment_callback req r pid pt st sv sf a c cu w1))"
  using assms
  by (auto simp: payment_callback_def Let_def split_def Math_random_def intro!: grows_intros)

lemma grows_refund_callback:
  assumes "traceId req \<noteq> None" "transactionId req \<noteq> None" "grows req w w1"
  shows "grows req w (snd (refund_callback req r rid pt sf pid a w1))"
  using assms
  by (auto simp: refund_callback_def Let_def intro!: grows_intros)

lemma grows_status_callback:
  assumes "traceId req \<noteq> None" "transactionId req \<noteq> None" "grows req w w1"
  shows "grows req w (snd (status_callback req r pid st pt w1))"
  using assms
  by (auto simp: status_callback_def Let_def intro!: grows_intros)

lemma grows_post_payments:
  assumes "traceId req \<noteq> None" "transactionId req \<noteq> None"
  shows "grows req w (snd (post_payments req r w))"
proof (cases "truthy (req_body req ''amount'') \<and> truthy (req_body req ''currency'')
              \<and> truthy (req_body req ''customerId'')")
  case True
  then show ?thesis
    using assms
    by (simp add: post_payments_valid grows_payment_callback grows_intros)
next
  case False
  then have "\<not> truthy (req_body req ''amount'') \<or> \<not> truthy (req_body req ''currency'')
           \<or> \<not> truthy (req_body req ''customerId'')"
    by simp
  from post_payments_missing [OF this] show ?thesis
    using assms by (simp add: grows_intros)
qed

lemma grows_get_payment:
  assumes "traceId req \<noteq> None" "transactionId req \<noteq> None"
  shows "grows req w (snd (get_payment pid req r w))"
  using assms
  by (simp add: get_payment_callback grows_status_callback grows_intros)

lemma grows_post_refunds:
  assumes "traceId req \<noteq> None" "transactionId req \<noteq> None"
  shows "grows req w (snd (post_refunds req r w))"
proof (cases "truthy (req_body req ''paymentId'') \<and> truthy (req_body req ''amount'')")
  case True
  then show ?thesis
    using assms
    by (simp add: post_refunds_valid grows_refund_callback grows_intros)
next
  case False
  then show ?thesis
    using assms
    by (auto simp: post_refunds_def Let_def intro!: grows_intros)
qed

lemma grows_get_health:
  assumes "traceId req \<noteq> None" "transactionId req \<noteq> None"
  shows "grows req w (snd (get_health sn req r w))"
  using assms
  by (auto simp: get_health_def Let_def intro!: grows_intros)

lemma grows_get_root:
  assumes "traceId req \<noteq> None" "transactionId req \<noteq> None"
  shows "grows req w (snd (get_root sn req r w))"
  using assms
  by (auto simp: get_root_def Let_def intro!: grows_intros)

lemma grows_dispatch:
  assumes "traceId req \<noteq> None" "transactionId req \<noteq> None"
  shows "grows req w (snd (dispatch sn rt req r w))"
  using assms
  by (cases rt)
     (simp_all add: grows_post_payments grows_get_payment grows_post_refunds
        grows_get_health grows_get_root)

lemma grows_routed:
  assumes "traceId req \<noteq> None" "transactionId req \<noteq> None"
  shows "grows req w
     (snd (case routed of
             Handler rt \<Rightarrow> dispatch sn rt req r w
           | Allow methods \<Rightarrow> res_end req (JStr methods) r w
           | NoRoute \<Rightarrow> finalhandler 404 ''Not Found'' page req r w
           | BadParameter \<Rightarrow> finalhandler 400 ''Bad Request'' ''Bad Request'' req r w))"
  using assms
  by (cases routed) (simp_all add: grows_dispatch finalhandler_def grows_res_end grows_refl)

subsection \<open>The headers of the response\<close>

lemma callback_headers:
  "res_headers (fst (payment_callback req r pid pt st sv sf a c cu w)) = res_headers r"
  "res_headers (fst (refund_callback req r rid pt sf pid' a w)) = res_headers r"
  "res_headers (fst (status_callback req r pid st' pt w)) = res_headers r"
  by (simp_all add: payment_callback_def refund_callback_def status_callback_def Let_def
      split_def res_json_fields res_status_def)

lemma dispatch_headers:
  "res_headers (fst (dispatch sn rt req r w)) = res_headers r"
proof (cases rt)
  case PostPayments
  show ?thesis
  proof (cases "truthy (req_body req ''amount'') \<and> truthy (req_body req ''currency'')
                \<and> truthy (req_body req ''customerId'')")
    case True
    then show ?thesis
      by (simp add: PostPayments post_payments_valid callback_headers)
  next
    case False
    then have "\<not> truthy (req_body req ''amount'') \<or> \<not> truthy (req_body req ''currency'')
           \<or> \<not> truthy (req_body req ''customerId'')"
      by simp
    from post_payments_missing [OF this] show ?thesis
      by (simp add: PostPayments res_json_fields res_status_def)
  qed
next
  case (GetPayment pid)
  then show ?thesis
    by (simp add: get_payment_callback callback_headers)
next
  case PostRefunds
  show ?thesis
  proof (cases "truthy (req_body req ''paymentId'') \<and> truthy (req_body req ''amount'')")
    case True
    then show ?thesis
      by (simp add: PostRefunds post_refunds_valid callback_headers)
  next
    case False
    then show ?thesis
      by (auto simp: PostRefunds post_refunds_def Let_def res_json_fields res_status_def)
  qed
next
  case GetHealth
  then show ?thesis
    by (simp add: get_health_def Let_def res_json_fields res_status_def)
next
  case GetRoot
  then show ?thesis
    by (simp add: get_root_def Let_def res_json_fields res_status_def)
qed

lemma routed_headers:
  "res_headers
     (fst (case routed of
             Handler rt \<Rightarrow> dispatch sn rt req r w
           | Allow methods \<Rightarrow> res_end req (JStr methods) r w
           | NoRoute \<Rightarrow> finalhandler 404 ''Not Found'' page req r w
           | BadParameter \<Rightarrow> finalhandler 400 ''Bad Request'' ''Bad Request'' req r w))
   = res_headers r"
  by (cases routed) (simp_all add: dispatch_headers finalhandler_fields res_end_fields)

subsection \<open>The ids of a request\<close>

lemma request_id_middleware_logged:
  "\<exists>e. logged (snd (snd (request_id_middleware req r w))) = logged w @ [e]
       \<and> prop_of ''trace_id'' e = map_option JStr (traceId (fst (request_id_middleware req r w)))
       \<and> prop_of ''transaction_id'' e =
           map_option JStr (transactionId (fst (request_id_middleware req r w)))"
  by (simp add: request_id_middleware_def Let_def split_def uuidv4_def logger_info_def
      prop_of_def split: option.splits)

text \<open>
  Claim C7. For every request, the trace id is the value of the header \<open>x-trace-id\<close> when
  the request has one that is not empty, and the next token of \<open>uuidv4()\<close> otherwise; the
  transaction id is always the next token after that. Each token is taken from a new
  position of the generator, which has moved past it when the request ends. Both ids are
  the response headers \<open>x-trace-id\<close> and \<open>x-transaction-id\<close>, and every record logged from
  the arrival of the request to its response, of which there is at least one, has them as
  its properties \<open>trace_id\<close> and \<open>transaction_id\<close>.
\<close>

theorem correlation_ids:
  fixes req :: request and w :: world
  defines "trace \<equiv> (case req_headers req ''x-trace-id'' of
                       None \<Rightarrow> uuids w (upos w)
                     | Some h \<Rightarrow> if h \<noteq> [] then h else uuids w (upos w))"
  defines "txn \<equiv> (case req_headers req ''x-trace-id'' of
                     None \<Rightarrow> uuids w (upos w + 1)
                   | Some h \<Rightarrow> if h \<noteq> [] then uuids w (upos w) else uuids w (upos w + 1))"
  shows "res_headers (fst (handle sn req w)) ''x-trace-id'' = Some trace
       \<and> res_headers (fst (handle sn req w)) ''x-transaction-id'' = Some txn
       \<and> upos (snd (handle sn req w)) =
           upos w + (case req_headers req ''x-trace-id'' of
                       None \<Rightarrow> 2
                     | Some h \<Rightarrow> if h \<noteq> [] then 1 else 2)
       \<and> logged (snd (handle sn req w)) = logged w @ new_events w (snd (handle sn req w))
       \<and> new_events w (snd (handle sn req w)) \<noteq> []
       \<and> (\<forall>e \<in> set (new_events w (snd (handle sn req w))).
             prop_of ''trace_id'' e = Some (JStr trace)
           \<and> prop_of ''transaction_id'' e = Some (JStr txn))"
proof -
  define req1 where "req1 = fst (request_id_middleware req new_res w)"
  define r1 where "r1 = fst (snd (request_id_middleware req new_res w))"
  define w1 where "w1 = snd (snd (request_id_middleware req new_res w))"
  define r2 where "r2 = response_time_middleware r1 w1"
  define routed where "routed = route_of (decodeURIComponent w) (req_method req) (req_path req)"
  define page where "page = ''Cannot '' @ req_method req @ '' '' @ req_path req"
  have h: "handle sn req w =
             (case routed of
                Handler rt \<Rightarrow> dispatch sn rt req1 r2 w1
              | Allow methods \<Rightarrow> res_end req1 (JStr methods) r2 w1
              | NoRoute \<Rightarrow> finalhandler 404 ''Not Found'' page req1 r2 w1
              | BadParameter \<Rightarrow> finalhandler 400 ''Bad Request'' ''Bad Request'' req1 r2 w1)"
    unfolding handle_routing req1_def r1_def w1_def r2_def routed_def page_def ..
  have ids: "traceId req1 = Some trace" "transactionId req1 = Some txn"
    by (simp_all add: req1_def request_id_middleware_request trace_def txn_def)
  have hd: "res_headers r2 ''x-trace-id'' = Some trace"
           "res_headers r2 ''x-transaction-id'' = Some txn"
    using ids
    by (simp_all add: r2_def r1_def req1_def response_time_middleware_def
        request_id_middleware_res)
  from request_id_middleware_logged [of req new_res w] obtain e0 where
    e0: "logged w1 = logged w @ [e0]"
        "prop_of ''trace_id'' e0 = Some (JStr trace)"
        "prop_of ''transaction_id'' e0 = Some (JStr txn)"
    using ids by (auto simp: w1_def req1_def)
  have u1: "upos w1 = upos w + (case req_headers req ''x-trace-id'' of
                       None \<Rightarrow> 2
                     | Some h \<Rightarrow> if h \<noteq> [] then 1 else 2)"
    by (simp add: w1_def request_id_middleware_world)
  from grows_routed [where req = req1 and w = w1 and routed = routed and sn = sn and r = r2
         and page = page] ids obtain es where
    es: "logged (snd (handle sn req w)) = logged w1 @ es" "list_all (carries_ids req1) es"
        "upos (snd (handle sn req w)) = upos w1"
    by (auto simp: grows_def h)
  have l: "logged (snd (handle sn req w)) = logged w @ e0 # es"
    using es(1) e0(1) by simp
  from new_events_eq [OF l] have n: "new_events w (snd (handle sn req w)) = e0 # es" .
  have a: "prop_of ''trace_id'' e = Some (JStr trace) \<and> prop_of ''transaction_id'' e = Some (JStr txn)"
    if "e \<in> set (e0 # es)" for e
    using that e0(2,3) es(2) ids by (auto simp: list_all_iff carries_ids_def)
  have "res_headers (fst (handle sn req w)) = res_headers r2"
    unfolding h by (rule routed_headers)
  with hd u1 es(3) l n a show ?thesis
    by simp
qed

theorem correlation_ids_witness:
  "res_headers (fst (handle ''payment-processor'' (traced_request ''abc'') (world_with [])))
      ''x-trace-id'' = Some ''abc''
   \<and> res_headers (fst (handle ''payment-processor'' (traced_request ''abc'') (world_with [])))
      ''x-transaction-id'' = Some ''uuid-0''
   \<and> res_headers (fst (handle ''payment-processor'' (traced_request []) (world_with [])))
      ''x-trace-id'' = Some ''uuid-0''
   \<and> res_headers (fst (handle ''payment-processor'' (traced_request []) (world_with [])))
      ''x-transaction-id'' = Some ''uuid-1''
   \<and> list_all (\<lambda>e. prop_of ''trace_id'' e = Some (JStr ''abc''))
        (new_events (world_with [])
           (snd (handle ''payment-processor'' (traced_request ''abc'') (world_with []))))
   \<and> length (new_events (world_with [])
        (snd (handle ''payment-processor'' (traced_request ''abc'') (world_with [])))) = 3"
proof -
  have "show_nat 0 = ''0''" "show_nat (Suc 0) = ''1''"
    by code_simp+
  then have u: "uuids (world_with []) 0 = ''uuid-0''" "uuids (world_with []) (Suc 0) = ''uuid-1''"
    by (simp_all add: world_with_def)
  have h: "req_headers (traced_request x) ''x-trace-id'' = Some x" for x
    by (simp add: traced_request_def request_with_def)
  have rt: "route_of d ''GET'' ''/health'' = Handler GetHealth" for d
    by (simp add: route_of_def path_parameter_def is_path_def lower_def by_method_def)
  have n: "length (new_events (world_with [])
        (snd (handle ''payment-processor'' (traced_request ''abc'') (world_with [])))) = 3"
    by (simp add: handle_def request_id_middleware_def Let_def uuidv4_def traced_request_def
        request_with_def get_health_def response_time_middleware_def new_events_def
        res_json_logged logger_info_fields completed_event_def res_end_def new_res_def
        setHeader_def res_status_def world_with_fields rt logger_info_def)
  from correlation_ids [of "''payment-processor''" "traced_request ''abc''" "world_with []"]
       correlation_ids [of "''payment-processor''" "traced_request []" "world_with []"]
  show ?thesis
    by (simp add: h u n world_with_fields list_all_iff)
qed

section \<open>Properties of the module\<close>

lemma app_js_declared:
  "lexically_declared app_js =
     [''express'', ''uuidv4'', ''pino'', ''bodyParser'', ''faker'', ''path'', ''fs'', ''PORT'',
      ''SERVICE_NAME'', ''logger'', ''logger'', ''app'']"
  by (simp add: app_js_def)

text \<open>
  Claim C10. The top level of \<open>app.js\<close> declares the constant \<open>logger\<close> twice, and the
  initialiser of the second declaration reads \<open>connectLogger\<close>, which neither the module
  nor Node binds. Loading the module therefore ends with the \<open>SyntaxError\<close> of the
  duplicate declaration before any statement has run: nothing is installed, the server
  never listens, and no request is answered by any handler.
\<close>

theorem module_never_loads:
  "count_list (lexically_declared app_js) ''logger'' = 2
   \<and> ''connectLogger'' \<notin> set (node_globals @ lexically_declared app_js)
   \<and> load_module app_js = Inl (SyntaxError ''logger'')
   \<and> serve (load_module app_js) sn req w = None"
proof -
  have d: "first_duplicate (lexically_declared app_js) = Some ''logger''"
    by (simp add: app_js_declared)
  have l: "load_module app_js = Inl (SyntaxError ''logger'')"
    by (simp add: load_module_def d)
  show ?thesis
    by (simp add: l serve_def app_js_declared node_globals_def)
qed

section \<open>Properties of the load generator\<close>

subsection \<open>What a call reads and leaves behind\<close>



lemma g_uuidv4_fields:
  "g_randoms (snd (g_uuidv4 g)) = g_randoms g"
  "g_rpos (snd (g_uuidv4 g)) = g_rpos g"
  "replies (snd (g_uuidv4 g)) = replies g"
  "npos (snd (g_uuidv4 g)) = npos g"
  "sent_requests (snd (g_uuidv4 g)) = sent_requests g"
  by (simp_all add: g_uuidv4_def)


lemma axios_fields:
  "fst (axios rq g) =
     (case replies g (npos g) of
        NoReply \<Rightarrow> None
      | Reply code data \<Rightarrow> if 200 \<le> code \<and> code < 300 then Some data else None)"
  "g_randoms (snd (axios rq g)) = g_randoms g"
  "g_rpos (snd (axios rq g)) = g_rpos g"
  "replies (snd (axios rq g)) = replies g"
  "npos (snd (axios rq g)) = npos g + 1"
  "sent_requests (snd (axios rq g)) = sent_requests g @ [rq]"
  by (cases "replies g (npos g)"; simp add: axios_def Let_def)+




subsection \<open>The API calls\<close>






lemma getServiceInfo_fields:
  "g_randoms (getServiceInfo cfg g) = g_randoms g"
  "g_rpos (getServiceInfo cfg g) = g_rpos g"
  "replies (getServiceInfo cfg g) = replies g"
  "npos (getServiceInfo cfg g) = npos g + 1"
  "map target (new_requests g (getServiceInfo cfg g)) = [Root]"
  by (simp_all add: getServiceInfo_def Let_def split_def axios_fields g_uuidv4_fields
      new_requests_def)

subsection \<open>One run of the load callback\<close>












end
